theory Spec2Isabelle
  imports Complex_Main
begin

section \<open>The roller-coaster track store\<close>

text \<open>
  A shallow embedding of \<^verbatim>\<open>client/src/lib/stores/useRollerCoaster.tsx\<close>.
  The module owns two pieces of mutable state: the counter \<^verbatim>\<open>pointCounter\<close>
  and the store created by \<^verbatim>\<open>create<RollerCoasterState>\<close>. Every action of the
  store is a function from the state before the call to the state after it.

  JavaScript numbers are taken as exact: coordinates, tilt, progress and speed are
  \<^typ>\<open>real\<close>, the counter is a \<^typ>\<open>nat\<close>. Rounding of IEEE doubles, NaN and
  infinities are outside the model (the counter is exact below \<open>2 ^ 53\<close>).
\<close>

subsection \<open>Vectors of the 3D library\<close>

text \<open>
  \<^verbatim>\<open>THREE.Vector3\<close> comes from the library \<^verbatim>\<open>three\<close>; the store uses its
  constructor, the fields \<^verbatim>\<open>x\<close>, \<^verbatim>\<open>y\<close>, \<^verbatim>\<open>z\<close> (here \<open>vx\<close>, \<open>vy\<close>, \<open>vz\<close>),
  \<^verbatim>\<open>clone\<close>, \<^verbatim>\<open>sub\<close>, \<^verbatim>\<open>length\<close> and \<^verbatim>\<open>normalize\<close>. The library's
  \<^verbatim>\<open>normalize\<close> is \<^verbatim>\<open>divideScalar(this.length() || 1)\<close>: the zero vector stays
  the zero vector.
\<close>

record Vector3 =
  vx :: real
  vy :: real
  vz :: real

definition clone_vec :: "Vector3 \<Rightarrow> Vector3" where
  "clone_vec v = \<lparr>vx = vx v, vy = vy v, vz = vz v\<rparr>"

definition sub_vec :: "Vector3 \<Rightarrow> Vector3 \<Rightarrow> Vector3" where
  "sub_vec a b = \<lparr>vx = vx a - vx b, vy = vy a - vy b, vz = vz a - vz b\<rparr>"

definition length_vec :: "Vector3 \<Rightarrow> real" where
  "length_vec v = sqrt (vx v * vx v + vy v * vy v + vz v * vz v)"

definition divideScalar :: "Vector3 \<Rightarrow> real \<Rightarrow> Vector3" where
  "divideScalar v s = \<lparr>vx = vx v / s, vy = vy v / s, vz = vz v / s\<rparr>"

definition normalize_vec :: "Vector3 \<Rightarrow> Vector3" where
  "normalize_vec v = divideScalar v (if length_vec v = 0 then 1 else length_vec v)"

subsection \<open>Data model\<close>

datatype CoasterMode = Build | Ride | Preview

text \<open>The field \<^verbatim>\<open>id\<close> of a track point is \<open>pid\<close> here.\<close>

record TrackPoint =
  pid :: string
  position :: Vector3
  tilt :: real

record RollerCoasterState =
  mode :: CoasterMode
  trackPoints :: "TrackPoint list"
  selectedPointId :: "string option"
  rideProgress :: real
  isRiding :: bool
  rideSpeed :: real
  isDraggingPoint :: bool
  isAddingPoints :: bool
  isLooped :: bool
  hasChainLift :: bool
  showWoodSupports :: bool
  isNightMode :: bool
  cameraTarget :: "Vector3 option"

text \<open>The module: the counter declared by \<^verbatim>\<open>let pointCounter = 0\<close> and the store.\<close>

record module_state =
  pointCounter :: nat
  useRollerCoaster :: RollerCoasterState

definition initialState :: RollerCoasterState where
  "initialState =
     \<lparr>mode = Build, trackPoints = [], selectedPointId = None, rideProgress = 0,
      isRiding = False, rideSpeed = 1, isDraggingPoint = False, isAddingPoints = True,
      isLooped = False, hasChainLift = True, showWoodSupports = False,
      isNightMode = False, cameraTarget = None\<rparr>"

definition initialModule :: module_state where
  "initialModule = \<lparr>pointCounter = 0, useRollerCoaster = initialState\<rparr>"

subsection \<open>Point identifiers\<close>

text \<open>
  The template literal \<^verbatim>\<open>`point-${n}`\<close> prints the counter in decimal, most
  significant digit first and without leading zeros.
\<close>

definition digitChar :: "nat \<Rightarrow> char" where
  "digitChar d = ''0123456789'' ! d"

function decimal :: "nat \<Rightarrow> string" where
  "decimal n = (if n < 10 then [digitChar n] else decimal (n div 10) @ [digitChar (n mod 10)])"
  by pat_completeness auto
termination
  by (relation "measure (\<lambda>n. n)") auto

declare decimal.simps [simp del]

definition pointId :: "nat \<Rightarrow> string" where
  "pointId n = ''point-'' @ decimal n"

subsection \<open>Array helpers\<close>

text \<open>
  \<^verbatim>\<open>Array.prototype.findIndex\<close>: the index of the first element that satisfies the
  predicate, \<open>-1\<close> when there is none.
\<close>

fun findIndexFrom :: "('a \<Rightarrow> bool) \<Rightarrow> 'a list \<Rightarrow> nat \<Rightarrow> int" where
  "findIndexFrom P [] k = - 1"
| "findIndexFrom P (x # xs) k = (if P x then int k else findIndexFrom P xs (Suc k))"

definition findIndex :: "('a \<Rightarrow> bool) \<Rightarrow> 'a list \<Rightarrow> int" where
  "findIndex P xs = findIndexFrom P xs 0"

subsection \<open>Simple setters\<close>

definition setMode :: "CoasterMode \<Rightarrow> RollerCoasterState \<Rightarrow> RollerCoasterState" where
  "setMode m state = state\<lparr>mode := m\<rparr>"

definition setCameraTarget :: "Vector3 option \<Rightarrow> RollerCoasterState \<Rightarrow> RollerCoasterState" where
  "setCameraTarget target state = state\<lparr>cameraTarget := target\<rparr>"

definition setIsDraggingPoint :: "bool \<Rightarrow> RollerCoasterState \<Rightarrow> RollerCoasterState" where
  "setIsDraggingPoint dragging state = state\<lparr>isDraggingPoint := dragging\<rparr>"

definition setIsAddingPoints :: "bool \<Rightarrow> RollerCoasterState \<Rightarrow> RollerCoasterState" where
  "setIsAddingPoints adding state = state\<lparr>isAddingPoints := adding\<rparr>"

definition setIsLooped :: "bool \<Rightarrow> RollerCoasterState \<Rightarrow> RollerCoasterState" where
  "setIsLooped looped state = state\<lparr>isLooped := looped\<rparr>"

definition setHasChainLift :: "bool \<Rightarrow> RollerCoasterState \<Rightarrow> RollerCoasterState" where
  "setHasChainLift hasChain state = state\<lparr>hasChainLift := hasChain\<rparr>"

definition setShowWoodSupports :: "bool \<Rightarrow> RollerCoasterState \<Rightarrow> RollerCoasterState" where
  "setShowWoodSupports show state = state\<lparr>showWoodSupports := show\<rparr>"

definition setIsNightMode :: "bool \<Rightarrow> RollerCoasterState \<Rightarrow> RollerCoasterState" where
  "setIsNightMode night state = state\<lparr>isNightMode := night\<rparr>"

definition selectPoint :: "string option \<Rightarrow> RollerCoasterState \<Rightarrow> RollerCoasterState" where
  "selectPoint ident state = state\<lparr>selectedPointId := ident\<rparr>"

definition setRideProgress :: "real \<Rightarrow> RollerCoasterState \<Rightarrow> RollerCoasterState" where
  "setRideProgress progress state = state\<lparr>rideProgress := progress\<rparr>"

definition setIsRiding :: "bool \<Rightarrow> RollerCoasterState \<Rightarrow> RollerCoasterState" where
  "setIsRiding riding state = state\<lparr>isRiding := riding\<rparr>"

definition setRideSpeed :: "real \<Rightarrow> RollerCoasterState \<Rightarrow> RollerCoasterState" where
  "setRideSpeed speed state = state\<lparr>rideSpeed := speed\<rparr>"

subsection \<open>Editing the track\<close>

definition addTrackPoint :: "Vector3 \<Rightarrow> module_state \<Rightarrow> module_state" where
  "addTrackPoint pos m =
     (let counter = pointCounter m + 1;
          ident = pointId counter;
          state = useRollerCoaster m
      in \<lparr>pointCounter = counter,
          useRollerCoaster = state\<lparr>trackPoints :=
            trackPoints state @ [\<lparr>pid = ident, position = clone_vec pos, tilt = 0\<rparr>]\<rparr>\<rparr>)"

definition updateTrackPoint :: "string \<Rightarrow> Vector3 \<Rightarrow> RollerCoasterState \<Rightarrow> RollerCoasterState" where
  "updateTrackPoint ident pos state =
     state\<lparr>trackPoints :=
       map (\<lambda>point. if pid point = ident then point\<lparr>position := clone_vec pos\<rparr> else point)
         (trackPoints state)\<rparr>"

definition updateTrackPointTilt :: "string \<Rightarrow> real \<Rightarrow> RollerCoasterState \<Rightarrow> RollerCoasterState" where
  "updateTrackPointTilt ident t state =
     state\<lparr>trackPoints :=
       map (\<lambda>point. if pid point = ident then point\<lparr>tilt := t\<rparr> else point)
         (trackPoints state)\<rparr>"

definition removeTrackPoint :: "string \<Rightarrow> RollerCoasterState \<Rightarrow> RollerCoasterState" where
  "removeTrackPoint ident state =
     state\<lparr>trackPoints := filter (\<lambda>point. pid point \<noteq> ident) (trackPoints state),
           selectedPointId :=
             (if selectedPointId state = Some ident then None else selectedPointId state)\<rparr>"

definition clearTrack :: "RollerCoasterState \<Rightarrow> RollerCoasterState" where
  "clearTrack state =
     state\<lparr>trackPoints := [], selectedPointId := None, rideProgress := 0, isRiding := False\<rparr>"

subsection \<open>\<open>updateTrackPoint\<close> with positions as objects\<close>

text \<open>
  In the source a position is a reference to a \<^verbatim>\<open>Vector3\<close> object, and the caller of
  \<^verbatim>\<open>updateTrackPoint\<close> passes such a reference. To speak about copying, the vectors
  allocated so far are kept in a list (the address of an object is its index) and a track
  point holds the address of its position. \<^verbatim>\<open>position.clone()\<close> allocates a new
  vector with the coordinates of the old one. \<^verbatim>\<open>map\<close> visits the points from left
  to right and calls \<^verbatim>\<open>clone\<close> once for each point whose id matches.
\<close>

type_synonym ref = nat

record TrackPointRef =
  rid :: string
  rposition :: ref
  rtilt :: real

definition clone_ref :: "ref \<Rightarrow> Vector3 list \<Rightarrow> ref \<times> Vector3 list" where
  "clone_ref r heap = (length heap, heap @ [clone_vec (heap ! r)])"

fun updateTrackPoint_ref ::
  "string \<Rightarrow> ref \<Rightarrow> TrackPointRef list \<Rightarrow> Vector3 list \<Rightarrow> TrackPointRef list \<times> Vector3 list"
where
  "updateTrackPoint_ref ident r [] heap = ([], heap)"
| "updateTrackPoint_ref ident r (point # points) heap =
     (if rid point = ident then
        (let (r', heap') = clone_ref r heap;
             (points', heap'') = updateTrackPoint_ref ident r points heap'
         in (point\<lparr>rposition := r'\<rparr> # points', heap''))
      else
        (let (points', heap'') = updateTrackPoint_ref ident r points heap
         in (point # points', heap'')))"

text \<open>The track as values: every point with the vector its reference leads to.\<close>

definition deref :: "Vector3 list \<Rightarrow> TrackPointRef list \<Rightarrow> TrackPoint list" where
  "deref heap points =
     map (\<lambda>point. \<lparr>pid = rid point, position = heap ! rposition point, tilt = rtilt point\<rparr>)
       points"

subsection \<open>Loop synthesis\<close>

definition loopRadius :: real where
  "loopRadius = 10"

definition numLoopPoints :: nat where
  "numLoopPoints = 16"

text \<open>The default direction \<^verbatim>\<open>new THREE.Vector3(1, 0, 0)\<close>.\<close>

definition unitX :: Vector3 where
  "unitX = \<lparr>vx = 1, vy = 0, vz = 0\<rparr>"

text \<open>
  The \<^verbatim>\<open>for\<close> loop of \<^verbatim>\<open>createLoopAtPoint\<close>. It runs \<open>i\<close> from \<open>0\<close> to
  \<open>numLoopPoints\<close> inclusive; what it changes is the counter and the array
  \<^verbatim>\<open>allPoints\<close>, passed here as a pair. The two \<^verbatim>\<open>continue\<close> statements skip
  the push, and with it the increment of the counter.
\<close>

function mainLoop ::
  "Vector3 \<Rightarrow> real \<Rightarrow> real \<Rightarrow> real \<Rightarrow> nat \<Rightarrow> nat \<times> TrackPoint list \<Rightarrow> nat \<times> TrackPoint list"
where
  "mainLoop direction loopCenterX loopCenterY loopCenterZ i (counter, allPoints) =
     (if i \<le> numLoopPoints then
        (let angle = - pi / 2 + (real i / real numLoopPoints) * pi * 2;
             forwardOffset = cos angle * loopRadius;
             heightOffset = sin angle * loopRadius;
             newPos = \<lparr>vx = loopCenterX + vx direction * forwardOffset,
                       vy = loopCenterY + heightOffset,
                       vz = loopCenterZ + vz direction * forwardOffset\<rparr>
         in if i = 0 then
              mainLoop direction loopCenterX loopCenterY loopCenterZ (i + 1) (counter, allPoints)
            else if i = numLoopPoints then
              mainLoop direction loopCenterX loopCenterY loopCenterZ (i + 1) (counter, allPoints)
            else
              mainLoop direction loopCenterX loopCenterY loopCenterZ (i + 1)
                (counter + 1,
                 allPoints @ [\<lparr>pid = pointId (counter + 1), position = newPos, tilt = 0\<rparr>]))
      else (counter, allPoints))"
  by pat_completeness auto
termination
  by (relation "measure (\<lambda>(direction, cx, cy, cz, i, acc). numLoopPoints + 1 - i)") auto

declare mainLoop.simps [simp del]

text \<open>
  \<^verbatim>\<open>createLoopAtPoint\<close>. Returning \<^verbatim>\<open>state\<close> itself from the updater leaves the
  store as it is. The pushes onto \<^verbatim>\<open>allPoints\<close> are threaded together with the
  counter; \<^verbatim>\<open>slice(0, k)\<close> is \<open>take k\<close> and \<^verbatim>\<open>slice(k)\<close> is \<open>drop k\<close>.
\<close>

definition createLoopAtPoint :: "string \<Rightarrow> module_state \<Rightarrow> module_state" where
  "createLoopAtPoint ident m =
     (let state = useRollerCoaster m;
          pointIndex = findIndex (\<lambda>p. pid p = ident) (trackPoints state)
      in if pointIndex = - 1 then m
         else
          (let basePoint = trackPoints state ! nat pointIndex;
               pos = position basePoint;
               direction =
                 (if pointIndex > 0 then
                    (let prevPoint = trackPoints state ! nat (pointIndex - 1);
                         direction = normalize_vec (sub_vec (clone_vec pos) (position prevPoint));
                         direction = direction\<lparr>vy := 0\<rparr>
                     in if length_vec direction < 0.1 then unitX
                        else normalize_vec direction)
                  else unitX);
               loopCenterForward = loopRadius;
               loopCenterX = vx pos + vx direction * loopCenterForward;
               loopCenterZ = vz pos + vz direction * loopCenterForward;
               loopCenterY = vy pos + loopRadius;
               counter = pointCounter m + 1;
               allPoints =
                 [\<lparr>pid = pointId counter,
                   position = \<lparr>vx = vx pos + vx direction * 3,
                               vy = vy pos + 2,
                               vz = vz pos + vz direction * 3\<rparr>,
                   tilt = 0\<rparr>];
               (counter, allPoints) =
                 mainLoop direction loopCenterX loopCenterY loopCenterZ 0 (counter, allPoints);
               exitForward = loopCenterForward + loopRadius;
               counter = counter + 1;
               allPoints = allPoints @
                 [\<lparr>pid = pointId counter,
                   position = \<lparr>vx = vx pos + vx direction * (exitForward + 3),
                               vy = vy pos + 2,
                               vz = vz pos + vz direction * (exitForward + 3)\<rparr>,
                   tilt = 0\<rparr>];
               counter = counter + 1;
               allPoints = allPoints @
                 [\<lparr>pid = pointId counter,
                   position = \<lparr>vx = vx pos + vx direction * (exitForward + 8),
                               vy = vy pos,
                               vz = vz pos + vz direction * (exitForward + 8)\<rparr>,
                   tilt = 0\<rparr>];
               newTrackPoints =
                 take (nat (pointIndex + 1)) (trackPoints state) @ allPoints @
                 drop (nat (pointIndex + 1)) (trackPoints state)
           in \<lparr>pointCounter = counter,
               useRollerCoaster = state\<lparr>trackPoints := newTrackPoints\<rparr>\<rparr>))"

subsection \<open>Riding\<close>

definition startRide :: "RollerCoasterState \<Rightarrow> RollerCoasterState" where
  "startRide state =
     (if length (trackPoints state) \<ge> 2
      then state\<lparr>mode := Ride, isRiding := True, rideProgress := 0\<rparr>
      else state)"

definition stopRide :: "RollerCoasterState \<Rightarrow> RollerCoasterState" where
  "stopRide state = state\<lparr>mode := Build, isRiding := False, rideProgress := 0\<rparr>"

subsection \<open>Sequences of calls\<close>

text \<open>
  The public operations as a datatype, one constructor per action of the store; \<open>call\<close>
  performs one of them on the module, \<open>run\<close> a sequence of them from left to right. The
  states the program can be in are \<open>run ops initialModule\<close>.
\<close>

datatype operation =
    SetMode CoasterMode
  | SetCameraTarget "Vector3 option"
  | SetIsDraggingPoint bool
  | SetIsAddingPoints bool
  | SetIsLooped bool
  | SetHasChainLift bool
  | SetShowWoodSupports bool
  | SetIsNightMode bool
  | AddTrackPoint Vector3
  | UpdateTrackPoint string Vector3
  | UpdateTrackPointTilt string real
  | RemoveTrackPoint string
  | CreateLoopAtPoint string
  | SelectPoint "string option"
  | ClearTrack
  | SetRideProgress real
  | SetIsRiding bool
  | SetRideSpeed real
  | StartRide
  | StopRide

definition onStore :: "(RollerCoasterState \<Rightarrow> RollerCoasterState) \<Rightarrow> module_state \<Rightarrow> module_state" where
  "onStore f m = m\<lparr>useRollerCoaster := f (useRollerCoaster m)\<rparr>"

fun call :: "operation \<Rightarrow> module_state \<Rightarrow> module_state" where
  "call (SetMode md) m = onStore (setMode md) m"
| "call (SetCameraTarget target) m = onStore (setCameraTarget target) m"
| "call (SetIsDraggingPoint b) m = onStore (setIsDraggingPoint b) m"
| "call (SetIsAddingPoints b) m = onStore (setIsAddingPoints b) m"
| "call (SetIsLooped b) m = onStore (setIsLooped b) m"
| "call (SetHasChainLift b) m = onStore (setHasChainLift b) m"
| "call (SetShowWoodSupports b) m = onStore (setShowWoodSupports b) m"
| "call (SetIsNightMode b) m = onStore (setIsNightMode b) m"
| "call (AddTrackPoint pos) m = addTrackPoint pos m"
| "call (UpdateTrackPoint ident pos) m = onStore (updateTrackPoint ident pos) m"
| "call (UpdateTrackPointTilt ident t) m = onStore (updateTrackPointTilt ident t) m"
| "call (RemoveTrackPoint ident) m = onStore (removeTrackPoint ident) m"
| "call (CreateLoopAtPoint ident) m = createLoopAtPoint ident m"
| "call (SelectPoint ident) m = onStore (selectPoint ident) m"
| "call ClearTrack m = onStore clearTrack m"
| "call (SetRideProgress progress) m = onStore (setRideProgress progress) m"
| "call (SetIsRiding riding) m = onStore (setIsRiding riding) m"
| "call (SetRideSpeed speed) m = onStore (setRideSpeed speed) m"
| "call StartRide m = onStore startRide m"
| "call StopRide m = onStore stopRide m"

definition run :: "operation list \<Rightarrow> module_state \<Rightarrow> module_state" where
  "run ops m = foldl (\<lambda>m' operation. call operation m') m ops"

subsection \<open>The loop as the specification describes it\<close>

text \<open>
  These definitions follow the words of the specification (section 4.2), not the code;
  the theorems below compare them with \<open>createLoopAtPoint\<close>.

  The forward direction at anchor index \<open>k\<close>: \<open>(1, 0, 0)\<close> for the first point;
  otherwise the normalised difference to the previous point with its y-component set to
  zero, normalised again unless its magnitude is below \<open>0.1\<close>.
\<close>

definition spec_direction :: "TrackPoint list \<Rightarrow> nat \<Rightarrow> Vector3" where
  "spec_direction tps k =
     (if k = 0 then \<lparr>vx = 1, vy = 0, vz = 0\<rparr>
      else
        (let flat = (normalize_vec (sub_vec (position (tps ! k)) (position (tps ! (k - 1)))))
                      \<lparr>vy := 0\<rparr>
         in if length_vec flat < 0.1 then \<lparr>vx = 1, vy = 0, vz = 0\<rparr> else normalize_vec flat))"

text \<open>The angle of body point \<open>i\<close>, and the run of (forward, height) offsets from the anchor.\<close>

definition spec_angle :: "nat \<Rightarrow> real" where
  "spec_angle i = - pi / 2 + (real i / 16) * (2 * pi)"

definition spec_offsets :: "(real \<times> real) list" where
  "spec_offsets =
     [(3, 2)] @
     map (\<lambda>i. (10 + cos (spec_angle i) * 10, 10 + sin (spec_angle i) * 10)) [1..<16] @
     [(23, 2), (28, 0)]"

text \<open>A point \<open>f\<close> units ahead of \<open>pos\<close> along \<open>d\<close> and \<open>h\<close> units above it.\<close>

definition spec_place :: "Vector3 \<Rightarrow> Vector3 \<Rightarrow> real \<times> real \<Rightarrow> Vector3" where
  "spec_place pos d fh =
     \<lparr>vx = vx pos + vx d * fst fh, vy = vy pos + snd fh, vz = vz pos + vz d * fst fh\<rparr>"

text \<open>The 18 emitted points, with the identifiers that follow counter value \<open>c\<close>.\<close>

definition spec_loop :: "nat \<Rightarrow> Vector3 \<Rightarrow> Vector3 \<Rightarrow> TrackPoint list" where
  "spec_loop c pos d =
     map (\<lambda>(n, fh). \<lparr>pid = pointId (c + n), position = spec_place pos d fh, tilt = 0\<rparr>)
       (zip [1..<19] spec_offsets)"

subsection \<open>Auxiliary notions for the proofs\<close>

text \<open>The position that iteration \<open>i\<close> of the \<^verbatim>\<open>for\<close> loop computes.\<close>

definition bodyPos :: "Vector3 \<Rightarrow> real \<Rightarrow> real \<Rightarrow> real \<Rightarrow> nat \<Rightarrow> Vector3" where
  "bodyPos d cx cy cz i =
     \<lparr>vx = cx + vx d * (cos (- pi / 2 + (real i / real numLoopPoints) * pi * 2) * loopRadius),
      vy = cy + sin (- pi / 2 + (real i / real numLoopPoints) * pi * 2) * loopRadius,
      vz = cz + vz d * (cos (- pi / 2 + (real i / real numLoopPoints) * pi * 2) * loopRadius)\<rparr>"

text \<open>The identifiers of the track.\<close>

definition trackIds :: "module_state \<Rightarrow> string list" where
  "trackIds m = map pid (trackPoints (useRollerCoaster m))"

text \<open>
  Every identifier on the track was minted from a counter value that is not above the
  current one, and no identifier occurs twice.
\<close>

definition idsMinted :: "module_state \<Rightarrow> bool" where
  "idsMinted m =
     (distinct (trackIds m) \<and>
      (\<forall>i \<in> set (trackIds m). \<exists>n. n \<le> pointCounter m \<and> i = pointId n))"

text \<open>Calls that append one point, and calls that neither create nor remove points.\<close>

fun isAdd :: "operation \<Rightarrow> bool" where
  "isAdd (AddTrackPoint pos) = True"
| "isAdd operation = False"

fun keepsPointCount :: "operation \<Rightarrow> bool" where
  "keepsPointCount (RemoveTrackPoint ident) = False"
| "keepsPointCount (CreateLoopAtPoint ident) = False"
| "keepsPointCount ClearTrack = False"
| "keepsPointCount (AddTrackPoint pos) = False"
| "keepsPointCount operation = True"

text \<open>
  Calls that cannot separate \<open>isRiding\<close> from \<open>mode\<close>: everything except
  \<^verbatim>\<open>setIsRiding(true)\<close> and \<^verbatim>\<open>setMode\<close> with a mode other than \<^verbatim>\<open>"ride"\<close>.
\<close>

fun keepsRideFlag :: "operation \<Rightarrow> bool" where
  "keepsRideFlag (SetIsRiding riding) = (\<not> riding)"
| "keepsRideFlag (SetMode md) = (md = Ride)"
| "keepsRideFlag operation = True"

subsection \<open>Example states\<close>

definition origin :: Vector3 where
  "origin = \<lparr>vx = 0, vy = 0, vz = 0\<rparr>"

definition onePoint :: module_state where
  "onePoint = run [AddTrackPoint origin] initialModule"

definition twoPoints :: module_state where
  "twoPoints = run [AddTrackPoint origin, AddTrackPoint \<lparr>vx = 0, vy = 0, vz = 2\<rparr>] initialModule"

text \<open>Two points with the first one selected.\<close>

definition twoPointsSelected :: module_state where
  "twoPointsSelected =
     run [AddTrackPoint origin, AddTrackPoint \<lparr>vx = 0, vy = 0, vz = 2\<rparr>,
          SelectPoint (Some ''point-1'')] initialModule"

text \<open>A selection that names no point of the (empty) track.\<close>

definition danglingSelection :: module_state where
  "danglingSelection = run [SelectPoint (Some ''point-7'')] initialModule"

text \<open>A ride started through \<open>startRide\<close>, and \<open>isRiding\<close> set by hand.\<close>

definition rideOps :: "operation list" where
  "rideOps =
     [AddTrackPoint origin, AddTrackPoint \<lparr>vx = 0, vy = 0, vz = 2\<rparr>, SetMode Ride,
      SetIsRiding False, StartRide]"

definition ridingByHand :: module_state where
  "ridingByHand = run [SetIsRiding True] initialModule"

text \<open>A ride started through \<open>startRide\<close>, then the mode set by hand.\<close>

definition modeByHand :: module_state where
  "modeByHand =
     run [AddTrackPoint origin, AddTrackPoint \<lparr>vx = 0, vy = 0, vz = 2\<rparr>, StartRide,
          SetMode Build] initialModule"

text \<open>
  The track of \<open>twoPoints\<close> with its positions as objects, and a third vector that a
  caller holds.
\<close>

definition exampleHeap :: "Vector3 list" where
  "exampleHeap = [origin, \<lparr>vx = 0, vy = 0, vz = 2\<rparr>, \<lparr>vx = 5, vy = 1, vz = 5\<rparr>]"

definition examplePoints :: "TrackPointRef list" where
  "examplePoints =
     [\<lparr>rid = ''point-1'', rposition = 0, rtilt = 0\<rparr>,
      \<lparr>rid = ''point-2'', rposition = 1, rtilt = 0\<rparr>]"

section \<open>Properties\<close>

subsection \<open>Helper lemmas\<close>

lemma clone_vec_id: "clone_vec v = v"
  by (simp add: clone_vec_def)

lemma run_Nil: "run [] m = m"
  by (simp add: run_def)

lemma run_Cons: "run (operation # ops) m = run ops (call operation m)"
  by (simp add: run_def)

lemma run_snoc: "run (ops @ [operation]) m = call operation (run ops m)"
  by (simp add: run_def)

paragraph \<open>\<open>findIndex\<close>\<close>

lemma findIndexFrom_none: "(findIndexFrom P xs k = - 1) = (\<forall>x\<in>set xs. \<not> P x)"
  by (induction xs arbitrary: k) auto

lemma findIndexFrom_shift:
  "findIndexFrom P xs k \<noteq> - 1 \<Longrightarrow> findIndexFrom P xs k = int k + findIndexFrom P xs 0"
proof (induction xs arbitrary: k)
  case Nil
  then show ?case by simp
next
  case (Cons x xs)
  show ?case
  proof (cases "P x")
    case True
    then show ?thesis by simp
  next
    case False
    with Cons.prems have ne: "findIndexFrom P xs (Suc k) \<noteq> - 1" by simp
    then have ne1: "findIndexFrom P xs (Suc 0) \<noteq> - 1"
      by (simp add: findIndexFrom_none)
    from Cons.IH[OF ne] Cons.IH[OF ne1] False show ?thesis by simp
  qed
qed

lemma findIndex_Nil: "findIndex P [] = - 1"
  by (simp add: findIndex_def)

lemma findIndex_Cons:
  "findIndex P (x # xs) =
     (if P x then 0 else if findIndex P xs = - 1 then - 1 else findIndex P xs + 1)"
  unfolding findIndex_def
  using findIndexFrom_shift[of P xs "Suc 0"] findIndexFrom_none[of P xs "Suc 0"]
    findIndexFrom_none[of P xs 0]
  by auto

lemma findIndex_none: "(findIndex P xs = - 1) = (\<forall>x\<in>set xs. \<not> P x)"
  by (simp add: findIndex_def findIndexFrom_none)

lemma findIndex_found:
  assumes "findIndex P xs \<noteq> - 1"
  shows "0 \<le> findIndex P xs \<and> nat (findIndex P xs) < length xs \<and>
         P (xs ! nat (findIndex P xs)) \<and> (\<forall>j < nat (findIndex P xs). \<not> P (xs ! j))"
  using assms
proof (induction xs)
  case Nil
  then show ?case by (simp add: findIndex_Nil)
next
  case (Cons x xs)
  show ?case
  proof (cases "P x")
    case True
    then show ?thesis by (simp add: findIndex_Cons)
  next
    case False
    with Cons.prems have ne: "findIndex P xs \<noteq> - 1"
      by (simp add: findIndex_Cons split: if_splits)
    from Cons.IH[OF ne] have ih: "0 \<le> findIndex P xs" "nat (findIndex P xs) < length xs"
      "P (xs ! nat (findIndex P xs))" "\<forall>j < nat (findIndex P xs). \<not> P (xs ! j)" by auto
    have eq: "findIndex P (x # xs) = findIndex P xs + 1"
      using False ne by (simp add: findIndex_Cons)
    have n: "nat (findIndex P xs + 1) = Suc (nat (findIndex P xs))" using ih(1) by simp
    show ?thesis unfolding eq n using ih False
      by (auto simp: nth_Cons split: nat.splits)
  qed
qed

lemma findIndex_int:
  "findIndex P xs \<noteq> - 1 \<Longrightarrow> findIndex P xs = int (nat (findIndex P xs))"
  using findIndex_found[of P xs] by simp

paragraph \<open>Identifiers\<close>

lemma decimal_nonempty: "decimal n \<noteq> []"
  by (subst decimal.simps) simp

lemma digitChar_inj:
  assumes "a < 10" and "b < 10" and "digitChar a = digitChar b"
  shows "a = b"
proof -
  have d: "distinct ''0123456789''" by simp
  have "a < length ''0123456789''" "b < length ''0123456789''" using assms by simp_all
  with d assms(3) show "a = b" unfolding digitChar_def by (simp only: nth_eq_iff_index_eq)
qed

lemma decimal_inj: "decimal m = decimal n \<Longrightarrow> m = n"
proof (induction m arbitrary: n rule: decimal.induct)
  case (1 m)
  show ?case
  proof (cases "m < 10")
    case m: True
    show ?thesis
    proof (cases "n < 10")
      case True
      with m "1.prems" show ?thesis
        by (simp add: decimal.simps[of m] decimal.simps[of n] digitChar_inj)
    next
      case False
      with m "1.prems" decimal_nonempty[of "n div 10"] show ?thesis
        by (simp add: decimal.simps[of m] decimal.simps[of n])
    qed
  next
    case m: False
    show ?thesis
    proof (cases "n < 10")
      case True
      with m "1.prems" decimal_nonempty[of "m div 10"] show ?thesis
        by (simp add: decimal.simps[of m] decimal.simps[of n])
    next
      case False
      with m "1.prems" have e: "decimal (m div 10) = decimal (n div 10)"
        and dg: "digitChar (m mod 10) = digitChar (n mod 10)"
        by (simp_all add: decimal.simps[of m] decimal.simps[of n])
      from "1.IH"[OF m e] have q: "m div 10 = n div 10" .
      from dg have r: "m mod 10 = n mod 10" by (simp add: digitChar_inj)
      from q r show ?thesis by (metis div_mult_mod_eq)
    qed
  qed
qed

lemma pointId_inj: "pointId m = pointId n \<Longrightarrow> m = n"
  by (simp add: pointId_def decimal_inj)

paragraph \<open>The \<^verbatim>\<open>for\<close> loop\<close>

lemma mainLoop_past: "numLoopPoints < i \<Longrightarrow> mainLoop d cx cy cz i (c, acc) = (c, acc)"
  by (simp add: mainLoop.simps)

lemma mainLoop_last: "mainLoop d cx cy cz numLoopPoints (c, acc) = (c, acc)"
  by (subst mainLoop.simps) (simp add: mainLoop_past numLoopPoints_def)

lemma mainLoop_first: "mainLoop d cx cy cz 0 (c, acc) = mainLoop d cx cy cz 1 (c, acc)"
  by (subst mainLoop.simps) (simp add: Let_def)

lemma mainLoop_step:
  "0 < i \<Longrightarrow> i < numLoopPoints \<Longrightarrow>
   mainLoop d cx cy cz i (c, acc) =
   mainLoop d cx cy cz (Suc i)
     (Suc c, acc @ [\<lparr>pid = pointId (Suc c), position = bodyPos d cx cy cz i, tilt = 0\<rparr>])"
  by (subst mainLoop.simps) (simp add: Let_def bodyPos_def)

lemma mainLoop_from:
  "0 < i \<Longrightarrow> i + n = numLoopPoints \<Longrightarrow>
   mainLoop d cx cy cz i (c, acc) =
     (c + n,
      acc @ map (\<lambda>k. \<lparr>pid = pointId (c + 1 + k), position = bodyPos d cx cy cz (i + k),
                      tilt = 0\<rparr>) [0..<n])"
proof (induction n arbitrary: i c acc)
  case 0
  then show ?case by (simp add: mainLoop_last)
next
  case (Suc n)
  have lt: "i < numLoopPoints" using Suc.prems by simp
  have ih: "mainLoop d cx cy cz (Suc i) (Suc c, acc') =
     (Suc c + n,
      acc' @ map (\<lambda>k. \<lparr>pid = pointId (Suc c + 1 + k),
                        position = bodyPos d cx cy cz (Suc i + k), tilt = 0\<rparr>) [0..<n])"
    for acc'
    using Suc.IH[of "Suc i" "Suc c" acc'] Suc.prems by simp
  have split: "[0..<Suc n] = 0 # map Suc [0..<n]"
    by (simp add: upt_rec[of 0 "Suc n"] map_Suc_upt del: upt_Suc)
  show ?case
    unfolding mainLoop_step[OF Suc.prems(1) lt] ih split
    by (simp add: o_def)
qed

lemma mainLoop_all:
  "mainLoop d cx cy cz 0 (c, acc) =
     (c + 15,
      acc @ map (\<lambda>i. \<lparr>pid = pointId (c + i), position = bodyPos d cx cy cz i, tilt = 0\<rparr>)
              [1..<16])"
proof -
  have "mainLoop d cx cy cz 0 (c, acc) = mainLoop d cx cy cz 1 (c, acc)"
    by (rule mainLoop_first)
  also have "\<dots> =
      (c + 15,
       acc @ map (\<lambda>k. \<lparr>pid = pointId (c + 1 + k), position = bodyPos d cx cy cz (1 + k),
                       tilt = 0\<rparr>) [0..<15])"
    by (rule mainLoop_from) (simp_all add: numLoopPoints_def)
  also have "map (\<lambda>k. \<lparr>pid = pointId (c + 1 + k), position = bodyPos d cx cy cz (1 + k),
                       tilt = 0\<rparr>) [0..<15] =
      map (\<lambda>i. \<lparr>pid = pointId (c + i), position = bodyPos d cx cy cz i, tilt = 0\<rparr>)
        (map Suc [0..<15])"
    by (simp add: o_def)
  also have "map Suc [0..<15] = [1..<16]"
    by (simp only: map_Suc_upt) simp
  finally show ?thesis .
qed

paragraph \<open>\<open>createLoopAtPoint\<close> against the specification's loop\<close>

lemma length_spec_offsets: "length spec_offsets = 18"
  by (simp add: spec_offsets_def)

lemma length_spec_loop: "length (spec_loop c pos d) = 18"
  by (simp add: spec_loop_def length_spec_offsets)

lemma upt_1_19: "[1..<19] = 1 # map Suc [1..<16] @ [17, 18::nat]"
  by code_simp

lemma spec_loop_unfold:
  "spec_loop c pos d =
     [\<lparr>pid = pointId (c + 1), position = spec_place pos d (3, 2), tilt = 0\<rparr>] @
     map (\<lambda>i. \<lparr>pid = pointId (c + 1 + i),
               position = spec_place pos d
                 (10 + cos (spec_angle i) * 10, 10 + sin (spec_angle i) * 10),
               tilt = 0\<rparr>) [1..<16] @
     [\<lparr>pid = pointId (c + 17), position = spec_place pos d (23, 2), tilt = 0\<rparr>,
      \<lparr>pid = pointId (c + 18), position = spec_place pos d (28, 0), tilt = 0\<rparr>]"
  unfolding spec_loop_def spec_offsets_def upt_1_19
  by (simp add: zip_map_map zip_same_conv_map o_def)

lemma createLoopAtPoint_missing:
  "findIndex (\<lambda>p. pid p = ident) (trackPoints (useRollerCoaster m)) = - 1 \<Longrightarrow>
   createLoopAtPoint ident m = m"
  by (simp add: createLoopAtPoint_def)

lemma createLoopAtPoint_found:
  assumes "findIndex (\<lambda>p. pid p = ident) (trackPoints (useRollerCoaster m)) = int k"
  shows "createLoopAtPoint ident m =
     \<lparr>pointCounter = pointCounter m + 18,
      useRollerCoaster = (useRollerCoaster m)\<lparr>trackPoints :=
        take (Suc k) (trackPoints (useRollerCoaster m)) @
        spec_loop (pointCounter m) (position (trackPoints (useRollerCoaster m) ! k))
          (spec_direction (trackPoints (useRollerCoaster m)) k) @
        drop (Suc k) (trackPoints (useRollerCoaster m))\<rparr>\<rparr>"
proof -
  have s: "nat (int k + 1) = Suc k" "nat (1 + int k) = Suc k" by simp_all
  show ?thesis
    by (simp add: createLoopAtPoint_def spec_direction_def Let_def assms mainLoop_all s
        bodyPos_def spec_loop_unfold spec_place_def spec_angle_def loopRadius_def
        numLoopPoints_def clone_vec_id unitX_def nat_diff_distrib' algebra_simps)
qed

paragraph \<open>Identifiers stay distinct\<close>

lemma createLoopAtPoint_cases:
  obtains (missing) "findIndex (\<lambda>p. pid p = ident) (trackPoints (useRollerCoaster m)) = - 1"
      "createLoopAtPoint ident m = m"
  | (found) k where "findIndex (\<lambda>p. pid p = ident) (trackPoints (useRollerCoaster m)) = int k"
      "k < length (trackPoints (useRollerCoaster m))"
      "pid (trackPoints (useRollerCoaster m) ! k) = ident"
      "\<forall>j<k. pid (trackPoints (useRollerCoaster m) ! j) \<noteq> ident"
      "createLoopAtPoint ident m =
         \<lparr>pointCounter = pointCounter m + 18,
          useRollerCoaster = (useRollerCoaster m)\<lparr>trackPoints :=
            take (Suc k) (trackPoints (useRollerCoaster m)) @
            spec_loop (pointCounter m) (position (trackPoints (useRollerCoaster m) ! k))
              (spec_direction (trackPoints (useRollerCoaster m)) k) @
            drop (Suc k) (trackPoints (useRollerCoaster m))\<rparr>\<rparr>"
proof (cases "findIndex (\<lambda>p. pid p = ident) (trackPoints (useRollerCoaster m)) = - 1")
  case True
  then show ?thesis using missing createLoopAtPoint_missing by blast
next
  case False
  let ?k = "nat (findIndex (\<lambda>p. pid p = ident) (trackPoints (useRollerCoaster m)))"
  have e: "findIndex (\<lambda>p. pid p = ident) (trackPoints (useRollerCoaster m)) = int ?k"
    using findIndex_int[OF False] .
  from findIndex_found[OF False] createLoopAtPoint_found[OF e] e show ?thesis
    using found[of ?k] by blast
qed

lemma createLoopAtPoint_store:
  "useRollerCoaster (createLoopAtPoint ident m) =
   (useRollerCoaster m)\<lparr>trackPoints := trackPoints (useRollerCoaster (createLoopAtPoint ident m))\<rparr>"
  by (cases ident m rule: createLoopAtPoint_cases) simp_all

lemma map_pid_spec_loop: "map pid (spec_loop c pos d) = map (\<lambda>n. pointId (c + n)) [1..<19]"
proof -
  have "map pid (spec_loop c pos d) = map (\<lambda>(n, fh). pointId (c + n)) (zip [1..<19] spec_offsets)"
    by (simp add: spec_loop_def case_prod_unfold)
  also have "\<dots> = map (\<lambda>n. pointId (c + n)) (map fst (zip [1..<19] spec_offsets))"
    by (simp add: case_prod_unfold o_def)
  also have "map fst (zip [1..<19] spec_offsets) = [1..<19]"
    by (rule map_fst_zip) (simp add: length_spec_offsets)
  finally show ?thesis .
qed

lemma distinct_insert_run:
  assumes "distinct (xs @ ys)" and "distinct rs" and "set rs \<inter> set (xs @ ys) = {}"
  shows "distinct (xs @ rs @ ys)"
  using assms by auto

lemma idsMinted_init: "idsMinted initialModule"
  by (simp add: idsMinted_def trackIds_def initialModule_def initialState_def)

lemma idsMinted_onStore:
  assumes "idsMinted m"
    and "distinct (map pid (trackPoints (f (useRollerCoaster m))))"
    and "set (map pid (trackPoints (f (useRollerCoaster m)))) \<subseteq> set (map pid (trackPoints (useRollerCoaster m)))"
  shows "idsMinted (onStore f m)"
  using assms unfolding idsMinted_def trackIds_def onStore_def by auto

lemma pid_update_if:
  "pid (if pid point = ident then point\<lparr>position := v\<rparr> else point) = pid point"
  by simp

lemma pid_tilt_if:
  "pid (if pid point = ident then point\<lparr>tilt := t\<rparr> else point) = pid point"
  by simp

lemma trackIds_update:
  "map pid (trackPoints (updateTrackPoint ident pos s)) = map pid (trackPoints s)"
  by (simp add: updateTrackPoint_def o_def pid_update_if)

lemma trackIds_tilt:
  "map pid (trackPoints (updateTrackPointTilt ident t s)) = map pid (trackPoints s)"
  by (simp add: updateTrackPointTilt_def o_def pid_tilt_if)

lemma idsMinted_keep:
  assumes "idsMinted m" and "trackPoints (f (useRollerCoaster m)) = trackPoints (useRollerCoaster m)"
  shows "idsMinted (onStore f m)"
  using assms by (intro idsMinted_onStore) (simp_all add: idsMinted_def trackIds_def)

lemma idsMinted_add: assumes "idsMinted m" shows "idsMinted (addTrackPoint pos m)"
proof -
  have fresh: "pointId (pointCounter m + 1) \<notin> set (trackIds m)"
  proof
    assume "pointId (pointCounter m + 1) \<in> set (trackIds m)"
    with assms obtain n where "n \<le> pointCounter m" "pointId (pointCounter m + 1) = pointId n"
      unfolding idsMinted_def by blast
    then show False using pointId_inj by fastforce
  qed
  have ids: "trackIds (addTrackPoint pos m) = trackIds m @ [pointId (pointCounter m + 1)]"
    and c: "pointCounter (addTrackPoint pos m) = pointCounter m + 1"
    by (simp_all add: trackIds_def addTrackPoint_def Let_def)
  show ?thesis unfolding idsMinted_def ids c using assms fresh
    by (auto simp: idsMinted_def intro: le_SucI)
qed

lemma idsMinted_loop: assumes "idsMinted m" shows "idsMinted (createLoopAtPoint ident m)"
proof (cases ident m rule: createLoopAtPoint_cases)
  case missing
  then show ?thesis using assms by simp
next
  case (found k)
  let ?tps = "trackPoints (useRollerCoaster m)"
  let ?new = "map (\<lambda>n. pointId (pointCounter m + n)) [1..<19]"
  have ids: "trackIds (createLoopAtPoint ident m) =
      take (Suc k) (trackIds m) @ ?new @ drop (Suc k) (trackIds m)"
    by (simp add: found(5) trackIds_def map_pid_spec_loop take_map drop_map)
  have c: "pointCounter (createLoopAtPoint ident m) = pointCounter m + 18"
    by (simp add: found(5))
  have dnew: "distinct ?new"
    by (auto simp: distinct_map inj_on_def dest: pointId_inj)
  have fresh: "set ?new \<inter> set (trackIds m) = {}"
  proof -
    { fix i assume a: "i \<in> set ?new" and b: "i \<in> set (trackIds m)"
      from a obtain j where j: "1 \<le> j" "i = pointId (pointCounter m + j)" by auto
      from b assms obtain n where n: "n \<le> pointCounter m" "i = pointId n"
        unfolding idsMinted_def by blast
      from j n have "pointCounter m + j = n" using pointId_inj by metis
      with j n have False by simp }
    then show ?thesis by blast
  qed
  have old: "distinct (take (Suc k) (trackIds m) @ drop (Suc k) (trackIds m))"
    using assms by (simp add: idsMinted_def)
  have d: "distinct (trackIds (createLoopAtPoint ident m))"
    unfolding ids using old dnew fresh
    by (intro distinct_insert_run) simp_all
  have b: "\<forall>i \<in> set (trackIds (createLoopAtPoint ident m)).
      \<exists>n. n \<le> pointCounter m + 18 \<and> i = pointId n"
  proof
    fix i assume "i \<in> set (trackIds (createLoopAtPoint ident m))"
    then consider "i \<in> set (trackIds m)" | "i \<in> set ?new"
      unfolding ids by (auto dest: in_set_takeD in_set_dropD)
    then show "\<exists>n. n \<le> pointCounter m + 18 \<and> i = pointId n"
    proof cases
      case 1
      with assms obtain n where "n \<le> pointCounter m" "i = pointId n"
        unfolding idsMinted_def by blast
      then show ?thesis by (intro exI[of _ n]) simp
    next
      case 2
      then obtain j where "j < 19" "i = pointId (pointCounter m + j)" by auto
      then show ?thesis by (intro exI[of _ "pointCounter m + j"]) simp
    qed
  qed
  show ?thesis unfolding idsMinted_def c using d b by simp
qed

lemma idsMinted_call: assumes "idsMinted m" shows "idsMinted (call operation m)"
proof (cases operation)
  case (AddTrackPoint pos)
  then show ?thesis using assms by (simp add: idsMinted_add)
next
  case (CreateLoopAtPoint ident)
  then show ?thesis using assms by (simp add: idsMinted_loop)
next
  case (UpdateTrackPoint ident pos)
  have "idsMinted (onStore (updateTrackPoint ident pos) m)"
    using assms by (intro idsMinted_onStore)
      (simp_all only: trackIds_update, simp_all add: idsMinted_def trackIds_def)
  with UpdateTrackPoint show ?thesis by simp
next
  case (UpdateTrackPointTilt ident t)
  have "idsMinted (onStore (updateTrackPointTilt ident t) m)"
    using assms by (intro idsMinted_onStore)
      (simp_all only: trackIds_tilt, simp_all add: idsMinted_def trackIds_def)
  with UpdateTrackPointTilt show ?thesis by simp
next
  case (RemoveTrackPoint ident)
  have "idsMinted (onStore (removeTrackPoint ident) m)"
    using assms by (intro idsMinted_onStore)
      (auto simp: removeTrackPoint_def idsMinted_def trackIds_def distinct_map_filter)
  with RemoveTrackPoint show ?thesis by simp
next
  case ClearTrack
  have "idsMinted (onStore clearTrack m)"
    using assms by (intro idsMinted_onStore) (simp_all add: clearTrack_def)
  with ClearTrack show ?thesis by simp
qed (use assms in \<open>simp_all add: idsMinted_keep setMode_def setCameraTarget_def
      setIsDraggingPoint_def setIsAddingPoints_def setIsLooped_def setHasChainLift_def
      setShowWoodSupports_def setIsNightMode_def selectPoint_def setRideProgress_def
      setIsRiding_def setRideSpeed_def startRide_def stopRide_def\<close>)

lemma idsMinted_run: "idsMinted m \<Longrightarrow> idsMinted (run ops m)"
  by (induction ops arbitrary: m) (simp_all add: run_Nil run_Cons idsMinted_call)

lemma distinct_ids_run: "distinct (trackIds (run ops initialModule))"
  using idsMinted_run[OF idsMinted_init, of ops] by (simp add: idsMinted_def)

paragraph \<open>Ids that match no point\<close>

lemma no_match_findIndex:
  "ident \<notin> set (map pid tps) \<Longrightarrow> findIndex (\<lambda>p. pid p = ident) tps = - 1"
  by (auto simp: findIndex_none)

lemma updateTrackPoint_missing:
  "ident \<notin> set (map pid (trackPoints s)) \<Longrightarrow> updateTrackPoint ident pos s = s"
proof -
  assume a: "ident \<notin> set (map pid (trackPoints s))"
  have "map (\<lambda>point. if pid point = ident then point\<lparr>position := clone_vec pos\<rparr> else point)
          (trackPoints s) = trackPoints s"
    using a by (intro map_idI) auto
  then show ?thesis by (simp add: updateTrackPoint_def)
qed

lemma updateTrackPointTilt_missing:
  "ident \<notin> set (map pid (trackPoints s)) \<Longrightarrow> updateTrackPointTilt ident t s = s"
proof -
  assume a: "ident \<notin> set (map pid (trackPoints s))"
  have "map (\<lambda>point. if pid point = ident then point\<lparr>tilt := t\<rparr> else point)
          (trackPoints s) = trackPoints s"
    using a by (intro map_idI) auto
  then show ?thesis by (simp add: updateTrackPointTilt_def)
qed

lemma removeTrackPoint_missing:
  "ident \<notin> set (map pid (trackPoints s)) \<Longrightarrow>
   removeTrackPoint ident s =
     s\<lparr>selectedPointId := (if selectedPointId s = Some ident then None else selectedPointId s)\<rparr>"
proof -
  assume a: "ident \<notin> set (map pid (trackPoints s))"
  have "filter (\<lambda>point. pid point \<noteq> ident) (trackPoints s) = trackPoints s"
    using a by (intro filter_True) auto
  then show ?thesis by (simp add: removeTrackPoint_def)
qed

lemma onStore_id: "f (useRollerCoaster m) = useRollerCoaster m \<Longrightarrow> onStore f m = m"
  by (simp add: onStore_def)

lemma findIndex_member:
  assumes "ident \<in> set (map pid tps)"
  shows "findIndex (\<lambda>p. pid p = ident) tps = int (nat (findIndex (\<lambda>p. pid p = ident) tps))"
    and "nat (findIndex (\<lambda>p. pid p = ident) tps) < length tps"
    and "pid (tps ! nat (findIndex (\<lambda>p. pid p = ident) tps)) = ident"
proof -
  from assms have ne: "findIndex (\<lambda>p. pid p = ident) tps \<noteq> - 1"
    by (auto simp: findIndex_none)
  from findIndex_found[OF ne] findIndex_int[OF ne]
  show "findIndex (\<lambda>p. pid p = ident) tps = int (nat (findIndex (\<lambda>p. pid p = ident) tps))"
    and "nat (findIndex (\<lambda>p. pid p = ident) tps) < length tps"
    and "pid (tps ! nat (findIndex (\<lambda>p. pid p = ident) tps)) = ident"
    by simp_all
qed

paragraph \<open>The ride flag\<close>

lemma rideFlag_call:
  assumes "keepsRideFlag operation"
    and "isRiding (useRollerCoaster m) \<Longrightarrow> mode (useRollerCoaster m) = Ride"
    and "isRiding (useRollerCoaster (call operation m))"
  shows "mode (useRollerCoaster (call operation m)) = Ride"
proof (cases operation)
  case (CreateLoopAtPoint ident)
  have "isRiding (useRollerCoaster (createLoopAtPoint ident m)) = isRiding (useRollerCoaster m)"
    "mode (useRollerCoaster (createLoopAtPoint ident m)) = mode (useRollerCoaster m)"
    by (subst createLoopAtPoint_store, simp)+
  with assms CreateLoopAtPoint show ?thesis by simp
qed (use assms in \<open>auto simp: onStore_def addTrackPoint_def Let_def setMode_def
      setCameraTarget_def setIsDraggingPoint_def setIsAddingPoints_def setIsLooped_def
      setHasChainLift_def setShowWoodSupports_def setIsNightMode_def selectPoint_def
      setRideProgress_def setIsRiding_def setRideSpeed_def startRide_def stopRide_def
      updateTrackPoint_def updateTrackPointTilt_def removeTrackPoint_def clearTrack_def
      split: if_splits\<close>)

lemma rideFlag_run:
  "list_all keepsRideFlag ops \<Longrightarrow>
   (isRiding (useRollerCoaster m) \<Longrightarrow> mode (useRollerCoaster m) = Ride) \<Longrightarrow>
   isRiding (useRollerCoaster (run ops m)) \<Longrightarrow> mode (useRollerCoaster (run ops m)) = Ride"
proof (induction ops arbitrary: m)
  case Nil
  then show ?case by (simp add: run_Nil)
next
  case (Cons operation ops)
  from Cons.prems(1) have k: "keepsRideFlag operation" "list_all keepsRideFlag ops" by simp_all
  have step: "isRiding (useRollerCoaster (call operation m)) \<Longrightarrow>
      mode (useRollerCoaster (call operation m)) = Ride"
    using rideFlag_call[OF k(1)] Cons.prems(2) by blast
  from Cons.IH[OF k(2) step] Cons.prems(3) show ?case by (simp add: run_Cons)
qed

paragraph \<open>Counting points\<close>

lemma length_call_keeps:
  "keepsPointCount operation \<Longrightarrow>
   length (trackPoints (useRollerCoaster (call operation m))) =
   length (trackPoints (useRollerCoaster m))"
  by (cases operation)
    (simp_all add: onStore_def setMode_def
      setCameraTarget_def setIsDraggingPoint_def setIsAddingPoints_def setIsLooped_def
      setHasChainLift_def setShowWoodSupports_def setIsNightMode_def selectPoint_def
      setRideProgress_def setIsRiding_def setRideSpeed_def startRide_def stopRide_def
      updateTrackPoint_def updateTrackPointTilt_def)

lemma length_call_add:
  "length (trackPoints (useRollerCoaster (call (AddTrackPoint pos) m))) =
   Suc (length (trackPoints (useRollerCoaster m)))"
  by (simp add: addTrackPoint_def Let_def)

lemma length_run_adds:
  "list_all (\<lambda>operation. isAdd operation \<or> keepsPointCount operation) ops \<Longrightarrow>
   length (trackPoints (useRollerCoaster (run ops m))) =
   length (trackPoints (useRollerCoaster m)) + length (filter isAdd ops)"
proof (induction ops arbitrary: m)
  case Nil
  then show ?case by (simp add: run_Nil)
next
  case (Cons operation ops)
  from Cons.prems have rest: "list_all (\<lambda>operation. isAdd operation \<or> keepsPointCount operation) ops"
    and this_one: "isAdd operation \<or> keepsPointCount operation" by simp_all
  show ?case
  proof (cases "isAdd operation")
    case True
    then obtain pos where "operation = AddTrackPoint pos" by (cases operation) simp_all
    then show ?thesis using Cons.IH[OF rest, of "call operation m"] True
      by (simp add: run_Cons length_call_add del: call.simps)
  next
    case False
    with this_one have "keepsPointCount operation" by simp
    then show ?thesis using Cons.IH[OF rest, of "call operation m"] False
      by (simp add: run_Cons length_call_keeps)
  qed
qed

lemma filter_distinct_key:
  assumes "distinct (map f xs)" and "k < length xs"
  shows "filter (\<lambda>x. f x \<noteq> f (xs ! k)) xs = take k xs @ drop (Suc k) xs"
proof -
  have xs: "xs = take k xs @ xs ! k # drop (Suc k) xs"
    using assms(2) by (rule id_take_nth_drop)
  have d: "distinct (map f (take k xs) @ f (xs ! k) # map f (drop (Suc k) xs))"
    using assms(1) by (subst (asm) xs) simp
  have l: "filter (\<lambda>x. f x \<noteq> f (xs ! k)) (take k xs) = take k xs"
    using d by (intro filter_True) (auto simp: image_iff)
  have r: "filter (\<lambda>x. f x \<noteq> f (xs ! k)) (drop (Suc k) xs) = drop (Suc k) xs"
    using d by (intro filter_True) (auto simp: image_iff)
  have "filter (\<lambda>x. f x \<noteq> f (xs ! k)) xs =
      filter (\<lambda>x. f x \<noteq> f (xs ! k)) (take k xs @ xs ! k # drop (Suc k) xs)"
    using xs by simp
  also have "\<dots> = take k xs @ drop (Suc k) xs"
    by (simp add: l r)
  finally show ?thesis .
qed

paragraph \<open>Geometry of the loop\<close>

lemma spec_angle_top: "spec_angle 8 = pi / 2"
  by (simp add: spec_angle_def)

lemma spec_place_unit:
  "spec_place \<lparr>vx = 0, vy = 0, vz = 0\<rparr> \<lparr>vx = 1, vy = 0, vz = 0\<rparr> (f, h) = \<lparr>vx = f, vy = h, vz = 0\<rparr>"
  by (simp add: spec_place_def)

lemma findIndex_single: "findIndex (\<lambda>q. pid q = pid p) [p] = int 0"
  by (simp add: findIndex_def)

lemma on_circle:
  "list_all (\<lambda>q. (vx q - 10)\<^sup>2 + (vy q - 10)\<^sup>2 = 10\<^sup>2 \<and> vz q = 0)
     (map (\<lambda>i. \<lparr>vx = 10 + cos (a i) * 10, vy = 10 + sin (a i) * 10, vz = 0\<rparr>) is)"
proof -
  have "(cos t * 10)\<^sup>2 + (sin t * 10)\<^sup>2 = (10::real)\<^sup>2" for t :: real
  proof -
    have "(cos t * 10)\<^sup>2 + (sin t * 10)\<^sup>2 = (cos t)\<^sup>2 * 100 + (sin t)\<^sup>2 * 100"
      by (simp add: power_mult_distrib)
    also have "\<dots> = ((cos t)\<^sup>2 + (sin t)\<^sup>2) * 100"
      by (rule distrib_right[symmetric])
    also have "\<dots> = 100" by simp
    finally show ?thesis by simp
  qed
  then show ?thesis by (simp add: list_all_iff)
qed

paragraph \<open>Positions as objects\<close>

lemma updateTrackPoint_ref_length:
  "length (fst (updateTrackPoint_ref ident r points heap)) = length points"
  by (induction points arbitrary: heap) (simp_all add: Let_def case_prod_unfold)

lemma updateTrackPoint_ref_heap:
  "\<exists>ext. snd (updateTrackPoint_ref ident r points heap) = heap @ ext"
proof (induction points arbitrary: heap)
  case Nil
  then show ?case by simp
next
  case (Cons point points)
  show ?case
  proof (cases "rid point = ident")
    case True
    from Cons[of "heap @ [clone_vec (heap ! r)]"] obtain ext where
      "snd (updateTrackPoint_ref ident r points (heap @ [clone_vec (heap ! r)])) =
         (heap @ [clone_vec (heap ! r)]) @ ext" by blast
    with True show ?thesis by (simp add: Let_def case_prod_unfold clone_ref_def)
  next
    case False
    with Cons[of heap] show ?thesis by (simp add: Let_def case_prod_unfold)
  qed
qed

lemma updateTrackPoint_ref_old:
  "a < length heap \<Longrightarrow> snd (updateTrackPoint_ref ident r points heap) ! a = heap ! a"
  using updateTrackPoint_ref_heap[of ident r points heap] by (auto simp: nth_append)

lemma updateTrackPoint_ref_grows:
  "length heap \<le> length (snd (updateTrackPoint_ref ident r points heap))"
  using updateTrackPoint_ref_heap[of ident r points heap] by auto

lemma updateTrackPoint_ref_other:
  "j < length points \<Longrightarrow> rid (points ! j) \<noteq> ident \<Longrightarrow>
   fst (updateTrackPoint_ref ident r points heap) ! j = points ! j"
proof (induction points arbitrary: heap j)
  case Nil
  then show ?case by simp
next
  case (Cons point points)
  then show ?case
    by (cases j) (auto simp: Let_def case_prod_unfold)
qed

lemma updateTrackPoint_ref_match:
  assumes "j < length points" and "rid (points ! j) = ident" and "r < length heap"
  shows "rid (fst (updateTrackPoint_ref ident r points heap) ! j) = ident \<and>
         rtilt (fst (updateTrackPoint_ref ident r points heap) ! j) = rtilt (points ! j) \<and>
         length heap \<le> rposition (fst (updateTrackPoint_ref ident r points heap) ! j) \<and>
         rposition (fst (updateTrackPoint_ref ident r points heap) ! j)
           < length (snd (updateTrackPoint_ref ident r points heap)) \<and>
         snd (updateTrackPoint_ref ident r points heap)
           ! rposition (fst (updateTrackPoint_ref ident r points heap) ! j) = heap ! r"
  using assms
proof (induction points arbitrary: heap j)
  case Nil
  then show ?case by simp
next
  case (Cons point points)
  let ?h1 = "heap @ [clone_vec (heap ! r)]"
  show ?case
  proof (cases j)
    case 0
    with Cons.prems have m: "rid point = ident" by simp
    have g: "length ?h1 \<le> length (snd (updateTrackPoint_ref ident r points ?h1))"
      by (rule updateTrackPoint_ref_grows)
    have v: "snd (updateTrackPoint_ref ident r points ?h1) ! length heap = ?h1 ! length heap"
      by (rule updateTrackPoint_ref_old) simp
    from 0 m g v show ?thesis
      by (simp add: Let_def case_prod_unfold clone_ref_def clone_vec_id)
  next
    case (Suc j')
    with Cons.prems have j': "j' < length points" "rid (points ! j') = ident" by simp_all
    show ?thesis
    proof (cases "rid point = ident")
      case True
      have r1: "r < length ?h1" using Cons.prems(3) by simp
      from Cons.IH[OF j' r1] Cons.prems(3) True Suc show ?thesis
        by (simp add: Let_def case_prod_unfold clone_ref_def nth_append)
    next
      case False
      from Cons.IH[OF j' Cons.prems(3)] False Suc show ?thesis
        by (simp add: Let_def case_prod_unfold)
    qed
  qed
qed

lemma updateTrackPoint_ref_missing:
  "ident \<notin> set (map rid points) \<Longrightarrow> updateTrackPoint_ref ident r points heap = (points, heap)"
  by (induction points arbitrary: heap) (auto simp: Let_def)

lemma deref_updateTrackPoint_ref:
  assumes "r < length heap" and "list_all (\<lambda>point. rposition point < length heap) points"
  shows "deref (snd (updateTrackPoint_ref ident r points heap))
           (fst (updateTrackPoint_ref ident r points heap)) =
         map (\<lambda>point. if pid point = ident then point\<lparr>position := clone_vec (heap ! r)\<rparr> else point)
           (deref heap points)"
proof (rule nth_equalityI)
  show "length (deref (snd (updateTrackPoint_ref ident r points heap))
           (fst (updateTrackPoint_ref ident r points heap))) =
        length (map (\<lambda>point. if pid point = ident then point\<lparr>position := clone_vec (heap ! r)\<rparr> else point)
           (deref heap points))"
    by (simp add: deref_def updateTrackPoint_ref_length)
next
  fix j
  assume "j < length (deref (snd (updateTrackPoint_ref ident r points heap))
           (fst (updateTrackPoint_ref ident r points heap)))"
  then have j: "j < length points" by (simp add: deref_def updateTrackPoint_ref_length)
  have valid: "rposition (points ! j) < length heap"
    using assms(2) j by (simp add: list_all_length)
  show "deref (snd (updateTrackPoint_ref ident r points heap))
           (fst (updateTrackPoint_ref ident r points heap)) ! j =
        map (\<lambda>point. if pid point = ident then point\<lparr>position := clone_vec (heap ! r)\<rparr> else point)
           (deref heap points) ! j"
  proof (cases "rid (points ! j) = ident")
    case True
    from updateTrackPoint_ref_match[OF j True assms(1)] True j show ?thesis
      by (simp add: deref_def updateTrackPoint_ref_length clone_vec_id)
  next
    case False
    from updateTrackPoint_ref_other[OF j False] updateTrackPoint_ref_old[OF valid] False j
    show ?thesis
      by (simp add: deref_def updateTrackPoint_ref_length)
  qed
qed

lemma updateTrackPoint_value:
  "length (trackPoints (updateTrackPoint ident p s)) = length (trackPoints s) \<and>
   (\<forall>j < length (trackPoints s).
      if pid (trackPoints s ! j) = ident
      then trackPoints (updateTrackPoint ident p s) ! j =
             \<lparr>pid = ident, position = p, tilt = tilt (trackPoints s ! j)\<rparr>
      else trackPoints (updateTrackPoint ident p s) ! j = trackPoints s ! j)"
  by (simp add: updateTrackPoint_def clone_vec_id)

lemma updateTrackPoint_ref_copy:
  assumes "r < length heap" and "j < length points" and "rid (points ! j) = ident"
  shows "position (deref ((snd (updateTrackPoint_ref ident r points heap))[r := v])
           (fst (updateTrackPoint_ref ident r points heap)) ! j) = heap ! r"
proof -
  let ?points' = "fst (updateTrackPoint_ref ident r points heap)"
  let ?heap' = "snd (updateTrackPoint_ref ident r points heap)"
  from updateTrackPoint_ref_match[OF assms(2,3,1)]
  have fresh: "length heap \<le> rposition (?points' ! j)"
    and val: "?heap' ! rposition (?points' ! j) = heap ! r" by simp_all
  from fresh assms(1) have ne: "r \<noteq> rposition (?points' ! j)" by simp
  have "position (deref (?heap'[r := v]) ?points' ! j) = (?heap'[r := v]) ! rposition (?points' ! j)"
    using assms(2) by (simp add: deref_def updateTrackPoint_ref_length)
  also have "\<dots> = ?heap' ! rposition (?points' ! j)"
    using ne by simp
  finally show ?thesis using val by simp
qed

lemma updateTrackPoint_ref_take:
  "take (length heap) (snd (updateTrackPoint_ref ident r points heap)) = heap"
  using updateTrackPoint_ref_heap[of ident r points heap] by auto

paragraph \<open>The example states\<close>

lemma onePoint_eq:
  "onePoint = \<lparr>pointCounter = 1, useRollerCoaster = initialState\<lparr>trackPoints :=
     [\<lparr>pid = ''point-1'', position = origin, tilt = 0\<rparr>]\<rparr>\<rparr>"
  by (simp add: onePoint_def run_def addTrackPoint_def initialModule_def Let_def pointId_def
      decimal.simps digitChar_def clone_vec_def origin_def initialState_def)

lemma twoPoints_eq:
  "twoPoints = \<lparr>pointCounter = 2, useRollerCoaster = initialState\<lparr>trackPoints :=
     [\<lparr>pid = ''point-1'', position = origin, tilt = 0\<rparr>,
      \<lparr>pid = ''point-2'', position = \<lparr>vx = 0, vy = 0, vz = 2\<rparr>, tilt = 0\<rparr>]\<rparr>\<rparr>"
  by (simp add: twoPoints_def run_def addTrackPoint_def initialModule_def Let_def pointId_def
      decimal.simps digitChar_def clone_vec_def origin_def initialState_def)

lemma twoPoints_direction:
  "spec_direction (trackPoints (useRollerCoaster twoPoints)) 1 = \<lparr>vx = 0, vy = 0, vz = 1\<rparr>"
  by (simp add: twoPoints_eq spec_direction_def Let_def origin_def sub_vec_def normalize_vec_def
      length_vec_def divideScalar_def)

lemma example_update:
  "updateTrackPoint_ref ''point-2'' 2 examplePoints exampleHeap =
     ([\<lparr>rid = ''point-1'', rposition = 0, rtilt = 0\<rparr>,
       \<lparr>rid = ''point-2'', rposition = 3, rtilt = 0\<rparr>],
      exampleHeap @ [\<lparr>vx = 5, vy = 1, vz = 5\<rparr>])"
  by (simp add: examplePoints_def exampleHeap_def clone_ref_def clone_vec_def)

lemma example_deref: "deref exampleHeap examplePoints = trackPoints (useRollerCoaster twoPoints)"
  by (simp add: deref_def examplePoints_def exampleHeap_def twoPoints_eq)

subsection \<open>Starting a ride\<close>

text \<open>
  Claim C2. \<open>startRide\<close> on a track of at least two points sets \<open>mode\<close> to \<open>Ride\<close>,
  \<open>isRiding\<close> to true and \<open>rideProgress\<close> to \<open>0\<close> and changes no other field; on a
  track of zero or one point it returns the state it was given.
\<close>

theorem startRide_guarded:
  "(2 \<le> length (trackPoints s) \<longrightarrow>
      mode (startRide s) = Ride \<and> isRiding (startRide s) \<and> rideProgress (startRide s) = 0 \<and>
      trackPoints (startRide s) = trackPoints s \<and>
      selectedPointId (startRide s) = selectedPointId s \<and>
      rideSpeed (startRide s) = rideSpeed s \<and>
      isDraggingPoint (startRide s) = isDraggingPoint s \<and>
      isAddingPoints (startRide s) = isAddingPoints s \<and>
      isLooped (startRide s) = isLooped s \<and> hasChainLift (startRide s) = hasChainLift s \<and>
      showWoodSupports (startRide s) = showWoodSupports s \<and>
      isNightMode (startRide s) = isNightMode s \<and>
      cameraTarget (startRide s) = cameraTarget s) \<and>
   (length (trackPoints s) < 2 \<longrightarrow> startRide s = s)"
  by (simp add: startRide_def)

theorem startRide_guarded_witness:
  "2 \<le> length (trackPoints (useRollerCoaster twoPoints)) \<and>
   mode (startRide (useRollerCoaster twoPoints)) = Ride \<and>
   isRiding (startRide (useRollerCoaster twoPoints)) \<and>
   rideProgress (startRide (useRollerCoaster twoPoints)) = 0 \<and>
   trackPoints (startRide (useRollerCoaster twoPoints)) =
     trackPoints (useRollerCoaster twoPoints) \<and>
   length (trackPoints (useRollerCoaster onePoint)) < 2 \<and>
   startRide (useRollerCoaster onePoint) = useRollerCoaster onePoint \<and>
   mode (startRide (useRollerCoaster onePoint)) = Build"
  using startRide_guarded[of "useRollerCoaster twoPoints"]
    startRide_guarded[of "useRollerCoaster onePoint"]
  by (simp add: twoPoints_eq onePoint_eq initialState_def)

subsection \<open>Clearing the track\<close>

text \<open>
  Claim C9. \<open>clearTrack\<close> empties \<open>trackPoints\<close>, sets \<open>selectedPointId\<close> to null,
  \<open>rideProgress\<close> to \<open>0\<close> and \<open>isRiding\<close> to false; \<open>mode\<close>, \<open>rideSpeed\<close>, the six
  toggles and \<open>cameraTarget\<close> keep their values.
\<close>

theorem clearTrack_resets:
  "trackPoints (clearTrack s) = [] \<and> selectedPointId (clearTrack s) = None \<and>
   rideProgress (clearTrack s) = 0 \<and> isRiding (clearTrack s) = False \<and>
   mode (clearTrack s) = mode s \<and> rideSpeed (clearTrack s) = rideSpeed s \<and>
   isDraggingPoint (clearTrack s) = isDraggingPoint s \<and>
   isAddingPoints (clearTrack s) = isAddingPoints s \<and>
   isLooped (clearTrack s) = isLooped s \<and> hasChainLift (clearTrack s) = hasChainLift s \<and>
   showWoodSupports (clearTrack s) = showWoodSupports s \<and>
   isNightMode (clearTrack s) = isNightMode s \<and> cameraTarget (clearTrack s) = cameraTarget s"
  by (simp add: clearTrack_def)

subsection \<open>A loop on a single point at the origin\<close>

text \<open>
  Claim C1. On a track that consists of one point at \<open>(0, 0, 0)\<close>, \<open>createLoopAtPoint\<close>
  with that point's id keeps the point at index \<open>0\<close> and inserts exactly 18 points after
  it: the lead-in at \<open>(3, 2, 0)\<close>; 15 body points at
  \<open>(10 + 10 cos a, 10 + 10 sin a, 0)\<close> for \<open>a = -\<pi>/2 + (i/16) 2\<pi>\<close>, \<open>i = 1, ..., 15\<close>,
  which lie on the circle of radius 10 around \<open>(10, 10, 0)\<close> and of which the one for
  \<open>i = 8\<close> is \<open>(10, 20, 0)\<close>; and the lead-out points \<open>(23, 2, 0)\<close> and \<open>(28, 0, 0)\<close>.
  Every inserted point has tilt \<open>0\<close>.
\<close>

theorem loop_at_origin:
  assumes "trackPoints (useRollerCoaster m) = [p]"
    and "position p = \<lparr>vx = 0, vy = 0, vz = 0\<rparr>"
  shows "let tps' = trackPoints (useRollerCoaster (createLoopAtPoint (pid p) m));
             new = drop 1 tps'
         in take 1 tps' = [p] \<and> length new = 18 \<and>
            map position new =
              [\<lparr>vx = 3, vy = 2, vz = 0\<rparr>] @
              map (\<lambda>i. \<lparr>vx = 10 + cos (- pi / 2 + (real i / 16) * (2 * pi)) * 10,
                        vy = 10 + sin (- pi / 2 + (real i / 16) * (2 * pi)) * 10,
                        vz = 0\<rparr>) [1..<16] @
              [\<lparr>vx = 23, vy = 2, vz = 0\<rparr>, \<lparr>vx = 28, vy = 0, vz = 0\<rparr>] \<and>
            position (new ! 8) = \<lparr>vx = 10, vy = 20, vz = 0\<rparr> \<and>
            list_all (\<lambda>q. (vx q - 10)\<^sup>2 + (vy q - 10)\<^sup>2 = 10\<^sup>2 \<and> vz q = 0)
              (take 15 (drop 1 (map position new))) \<and>
            map tilt new = replicate 18 0"
proof -
  let ?o = "\<lparr>vx = 0, vy = 0, vz = 0\<rparr>"
  let ?d = "\<lparr>vx = 1, vy = 0, vz = 0\<rparr>"
  let ?body = "map (\<lambda>i. \<lparr>vx = 10 + cos (- pi / 2 + (real i / 16) * (2 * pi)) * 10,
                          vy = 10 + sin (- pi / 2 + (real i / 16) * (2 * pi)) * 10,
                          vz = 0\<rparr>) [1..<16]"
  have f: "findIndex (\<lambda>q. pid q = pid p) (trackPoints (useRollerCoaster m)) = int 0"
    unfolding assms(1) by (rule findIndex_single)
  have d: "spec_direction [p] 0 = ?d"
    by (simp add: spec_direction_def)
  have tps': "trackPoints (useRollerCoaster (createLoopAtPoint (pid p) m)) =
      p # spec_loop (pointCounter m) ?o ?d"
    unfolding createLoopAtPoint_found[OF f] by (simp add: assms d)
  have pos: "map position (spec_loop c ?o ?d) =
      [\<lparr>vx = 3, vy = 2, vz = 0\<rparr>] @ ?body @
      [\<lparr>vx = 23, vy = 2, vz = 0\<rparr>, \<lparr>vx = 28, vy = 0, vz = 0\<rparr>]" for c
    unfolding spec_loop_unfold by (simp add: spec_place_unit spec_angle_def o_def)
  have top: "position (spec_loop c ?o ?d ! 8) = \<lparr>vx = 10, vy = 20, vz = 0\<rparr>" for c
    unfolding spec_loop_unfold
    by (simp add: nth_append spec_place_unit spec_angle_top)
  have body: "take 15 (drop 1 (map position (spec_loop c ?o ?d))) = ?body" for c
    unfolding pos by simp
  have circle: "list_all (\<lambda>q. (vx q - 10)\<^sup>2 + (vy q - 10)\<^sup>2 = 10\<^sup>2 \<and> vz q = 0)
      (take 15 (drop 1 (map position (spec_loop c ?o ?d))))" for c
    unfolding body by (rule on_circle)
  have tl: "map tilt (spec_loop c pos dir) = replicate 18 0" for c pos dir
    by (simp add: spec_loop_def case_prod_unfold o_def map_replicate_const length_spec_offsets)
  show ?thesis
    unfolding Let_def tps' using circle[of "pointCounter m"]
    by (simp add: length_spec_loop pos top tl)
qed

theorem loop_at_origin_witness:
  "trackPoints (useRollerCoaster onePoint) =
     [\<lparr>pid = ''point-1'', position = \<lparr>vx = 0, vy = 0, vz = 0\<rparr>, tilt = 0\<rparr>] \<and>
   length (trackPoints (useRollerCoaster (createLoopAtPoint ''point-1'' onePoint))) = 19 \<and>
   position (trackPoints (useRollerCoaster (createLoopAtPoint ''point-1'' onePoint)) ! 1) =
     \<lparr>vx = 3, vy = 2, vz = 0\<rparr> \<and>
   position (trackPoints (useRollerCoaster (createLoopAtPoint ''point-1'' onePoint)) ! 9) =
     \<lparr>vx = 10, vy = 20, vz = 0\<rparr> \<and>
   position (trackPoints (useRollerCoaster (createLoopAtPoint ''point-1'' onePoint)) ! 17) =
     \<lparr>vx = 23, vy = 2, vz = 0\<rparr> \<and>
   position (trackPoints (useRollerCoaster (createLoopAtPoint ''point-1'' onePoint)) ! 18) =
     \<lparr>vx = 28, vy = 0, vz = 0\<rparr>"
proof -
  let ?p = "\<lparr>pid = ''point-1'', position = \<lparr>vx = 0, vy = 0, vz = 0\<rparr>, tilt = 0\<rparr>"
  let ?tps' = "trackPoints (useRollerCoaster (createLoopAtPoint ''point-1'' onePoint))"
  have a: "trackPoints (useRollerCoaster onePoint) = [?p]"
    by (simp add: onePoint_eq origin_def)
  have b: "position ?p = \<lparr>vx = 0, vy = 0, vz = 0\<rparr>" by simp
  from loop_at_origin[OF a b]
  have l: "length (drop 1 ?tps') = 18"
    and ps: "map position (drop 1 ?tps') =
              [\<lparr>vx = 3, vy = 2, vz = 0\<rparr>] @
              map (\<lambda>i. \<lparr>vx = 10 + cos (- pi / 2 + (real i / 16) * (2 * pi)) * 10,
                        vy = 10 + sin (- pi / 2 + (real i / 16) * (2 * pi)) * 10,
                        vz = 0\<rparr>) [1..<16] @
              [\<lparr>vx = 23, vy = 2, vz = 0\<rparr>, \<lparr>vx = 28, vy = 0, vz = 0\<rparr>]"
    and top: "position (drop 1 ?tps' ! 8) = \<lparr>vx = 10, vy = 20, vz = 0\<rparr>"
    by (simp_all add: Let_def)
  have len: "length ?tps' = 19" using l by simp
  have nth: "position (?tps' ! Suc j) = map position (drop 1 ?tps') ! j" if "j < 18" for j
    using that len by (simp add: nth_map)
  have "position (?tps' ! 1) = \<lparr>vx = 3, vy = 2, vz = 0\<rparr>"
    using nth[of 0] unfolding ps by simp
  moreover have "position (?tps' ! 9) = \<lparr>vx = 10, vy = 20, vz = 0\<rparr>"
    using nth[of 8] top len by (simp add: nth_map)
  moreover have "position (?tps' ! 17) = \<lparr>vx = 23, vy = 2, vz = 0\<rparr>"
    using nth[of 16] unfolding ps by (simp add: nth_append)
  moreover have "position (?tps' ! 18) = \<lparr>vx = 28, vy = 0, vz = 0\<rparr>"
    using nth[of 17] unfolding ps by (simp add: nth_append)
  ultimately show ?thesis using a len by blast
qed

subsection \<open>Ids that match no point\<close>

text \<open>
  Claim C3, as stated, fails for \<open>removeTrackPoint\<close>: it clears \<open>selectedPointId\<close>
  whenever the selection equals the id it is given, whether or not a point carries that
  id. After \<^verbatim>\<open>selectPoint("point-7")\<close> on the empty track, \<^verbatim>\<open>removeTrackPoint("point-7")\<close>
  changes the state.
\<close>

theorem removeTrackPoint_unknown_id_counterexample:
  "''point-7'' \<notin> set (trackIds danglingSelection) \<and>
   selectedPointId (useRollerCoaster danglingSelection) = Some ''point-7'' \<and>
   selectedPointId (useRollerCoaster (call (RemoveTrackPoint ''point-7'') danglingSelection))
     = None \<and>
   call (RemoveTrackPoint ''point-7'') danglingSelection \<noteq> danglingSelection"
proof -
  have d: "danglingSelection =
      \<lparr>pointCounter = 0,
       useRollerCoaster = initialState\<lparr>selectedPointId := Some ''point-7''\<rparr>\<rparr>"
    by (simp add: danglingSelection_def run_def onStore_def selectPoint_def initialModule_def)
  have r: "call (RemoveTrackPoint ''point-7'') danglingSelection =
      \<lparr>pointCounter = 0, useRollerCoaster = initialState\<rparr>"
    unfolding d by (simp add: onStore_def removeTrackPoint_def initialState_def)
  show ?thesis
    unfolding r unfolding d by (simp add: trackIds_def initialState_def)
qed

text \<open>
  Claim C3, amended. For an id that matches no point of the track, \<open>updateTrackPoint\<close>,
  \<open>updateTrackPointTilt\<close> and \<open>createLoopAtPoint\<close> leave the whole state (the counter
  included) unchanged. \<open>removeTrackPoint\<close> leaves every field unchanged except that
  \<open>selectedPointId\<close> becomes null when it equals that id; when the selection is another
  id or null, the whole state is unchanged. No operation has an error result: each is a
  total function on states.
\<close>

theorem unknown_id_ignored:
  assumes "ident \<notin> set (trackIds m)"
  shows "call (UpdateTrackPoint ident pos) m = m \<and>
         call (UpdateTrackPointTilt ident t) m = m \<and>
         call (CreateLoopAtPoint ident) m = m \<and>
         call (RemoveTrackPoint ident) m =
           m\<lparr>useRollerCoaster := (useRollerCoaster m)\<lparr>selectedPointId :=
               (if selectedPointId (useRollerCoaster m) = Some ident then None
                else selectedPointId (useRollerCoaster m))\<rparr>\<rparr> \<and>
         (if selectedPointId (useRollerCoaster m) = Some ident
          then selectedPointId (useRollerCoaster (call (RemoveTrackPoint ident) m)) = None
          else call (RemoveTrackPoint ident) m = m)"
proof -
  from assms have a: "ident \<notin> set (map pid (trackPoints (useRollerCoaster m)))"
    by (simp add: trackIds_def)
  have 1: "call (UpdateTrackPoint ident pos) m = m"
    using updateTrackPoint_missing[OF a] by (simp add: onStore_id)
  have 2: "call (UpdateTrackPointTilt ident t) m = m"
    using updateTrackPointTilt_missing[OF a] by (simp add: onStore_id)
  have 3: "call (CreateLoopAtPoint ident) m = m"
    using no_match_findIndex[OF a] by (simp add: createLoopAtPoint_missing)
  have 4: "call (RemoveTrackPoint ident) m =
           m\<lparr>useRollerCoaster := (useRollerCoaster m)\<lparr>selectedPointId :=
               (if selectedPointId (useRollerCoaster m) = Some ident then None
                else selectedPointId (useRollerCoaster m))\<rparr>\<rparr>"
    using removeTrackPoint_missing[OF a] by (simp add: onStore_def)
  have 5: "(if selectedPointId (useRollerCoaster m) = Some ident
          then selectedPointId (useRollerCoaster (call (RemoveTrackPoint ident) m)) = None
          else call (RemoveTrackPoint ident) m = m)"
    unfolding 4 by simp
  from 1 2 3 4 5 show ?thesis by blast
qed

theorem unknown_id_ignored_witness:
  "''point-7'' \<notin> set (trackIds twoPointsSelected) \<and>
   call (UpdateTrackPoint ''point-7'' origin) twoPointsSelected = twoPointsSelected \<and>
   call (UpdateTrackPointTilt ''point-7'' 1) twoPointsSelected = twoPointsSelected \<and>
   call (CreateLoopAtPoint ''point-7'') twoPointsSelected = twoPointsSelected \<and>
   call (RemoveTrackPoint ''point-7'') twoPointsSelected = twoPointsSelected"
proof -
  have ids: "trackIds twoPointsSelected = [''point-1'', ''point-2'']"
    and sel: "selectedPointId (useRollerCoaster twoPointsSelected) = Some ''point-1''"
    by (simp_all add: twoPointsSelected_def run_def trackIds_def onStore_def addTrackPoint_def
        selectPoint_def Let_def initialModule_def initialState_def pointId_def decimal.simps
        digitChar_def)
  have a: "''point-7'' \<notin> set (trackIds twoPointsSelected)"
    unfolding ids by simp
  from unknown_id_ignored[OF a, of origin 1] a show ?thesis
    by (simp add: sel)
qed

subsection \<open>The ride flag and the mode\<close>

text \<open>
  Claim C4, as stated, fails: \<open>setIsRiding\<close> and \<open>setMode\<close> are unconditional setters of
  one field each. \<^verbatim>\<open>setIsRiding(true)\<close> in the initial state gives \<open>isRiding\<close> while
  the mode is still \<open>Build\<close>; \<^verbatim>\<open>setMode("build")\<close> during a ride leaves \<open>isRiding\<close>
  true.
\<close>

theorem isRiding_outside_ride_counterexample:
  "isRiding (useRollerCoaster ridingByHand) \<and> mode (useRollerCoaster ridingByHand) = Build \<and>
   isRiding (useRollerCoaster modeByHand) \<and> mode (useRollerCoaster modeByHand) = Build \<and>
   Build \<noteq> Ride"
  by (simp add: ridingByHand_def modeByHand_def run_def onStore_def setIsRiding_def setMode_def
      startRide_def addTrackPoint_def Let_def initialModule_def initialState_def)

text \<open>
  Claim C4, amended. In every state reached from the initial state by public operations
  among which \<open>setIsRiding\<close> is only called with false and \<open>setMode\<close> only with
  \<^verbatim>\<open>"ride"\<close>, \<open>isRiding\<close> is true only when \<open>mode\<close> is \<open>Ride\<close>.
\<close>

theorem isRiding_only_in_ride:
  assumes "list_all keepsRideFlag ops"
    and "isRiding (useRollerCoaster (run ops initialModule))"
  shows "mode (useRollerCoaster (run ops initialModule)) = Ride"
  using rideFlag_run[OF assms(1) _ assms(2)]
  by (simp add: initialModule_def initialState_def)

theorem isRiding_only_in_ride_witness:
  "list_all keepsRideFlag rideOps \<and>
   isRiding (useRollerCoaster (run rideOps initialModule)) \<and>
   mode (useRollerCoaster (run rideOps initialModule)) = Ride"
proof -
  have a: "list_all keepsRideFlag rideOps" by (simp add: rideOps_def)
  have b: "isRiding (useRollerCoaster (run rideOps initialModule))"
    by (simp add: rideOps_def run_def onStore_def addTrackPoint_def Let_def setMode_def
        setIsRiding_def startRide_def initialModule_def initialState_def)
  from a b isRiding_only_in_ride[OF a b] show ?thesis by blast
qed

subsection \<open>Identifiers are pairwise distinct\<close>

text \<open>
  Claim C5. After every sequence of public operations from the initial state the ids of
  the track points are pairwise distinct. When the sequence holds no \<open>removeTrackPoint\<close>,
  \<open>createLoopAtPoint\<close> or \<open>clearTrack\<close>, the length of the track is the number of
  \<open>addTrackPoint\<close> calls in it; in particular \<open>n\<close> calls of \<open>addTrackPoint\<close> alone give a
  track of \<open>n\<close> points with \<open>n\<close> distinct ids.
\<close>

theorem ids_pairwise_distinct:
  "distinct (trackIds (run ops initialModule)) \<and>
   (list_all (\<lambda>operation. isAdd operation \<or> keepsPointCount operation) ops \<longrightarrow>
      length (trackPoints (useRollerCoaster (run ops initialModule))) =
        length (filter isAdd ops)) \<and>
   length (trackPoints (useRollerCoaster (run (map AddTrackPoint ps) initialModule))) =
     length ps \<and>
   distinct (trackIds (run (map AddTrackPoint ps) initialModule))"
proof -
  have a: "length (trackPoints (useRollerCoaster initialModule)) = 0"
    by (simp add: initialModule_def initialState_def)
  have adds: "list_all (\<lambda>operation. isAdd operation \<or> keepsPointCount operation)
      (map AddTrackPoint ps)"
    by (simp add: list_all_iff)
  have f: "length (filter isAdd (map AddTrackPoint ps)) = length ps"
    by (induction ps) simp_all
  show ?thesis
    using length_run_adds[of ops initialModule] length_run_adds[OF adds, of initialModule]
    by (simp add: a f distinct_ids_run)
qed

theorem ids_pairwise_distinct_witness:
  "list_all (\<lambda>operation. isAdd operation \<or> keepsPointCount operation)
     [AddTrackPoint origin, SelectPoint None, AddTrackPoint origin] \<and>
   trackIds (run [AddTrackPoint origin, SelectPoint None, AddTrackPoint origin] initialModule)
     = [''point-1'', ''point-2''] \<and>
   distinct
     (trackIds (run [AddTrackPoint origin, SelectPoint None, AddTrackPoint origin]
        initialModule)) \<and>
   length (trackPoints (useRollerCoaster
     (run [AddTrackPoint origin, SelectPoint None, AddTrackPoint origin] initialModule))) = 2"
proof -
  let ?ops = "[AddTrackPoint origin, SelectPoint None, AddTrackPoint origin]"
  have ids: "trackIds (run ?ops initialModule) = [''point-1'', ''point-2'']"
    by (simp add: run_def trackIds_def onStore_def addTrackPoint_def selectPoint_def Let_def
        initialModule_def initialState_def pointId_def decimal.simps digitChar_def)
  have a: "list_all (\<lambda>operation. isAdd operation \<or> keepsPointCount operation) ?ops" by simp
  from ids_pairwise_distinct[of ?ops "[]"] a ids show ?thesis by simp
qed

subsection \<open>The forward direction of a loop\<close>

text \<open>
  Claim C6. When \<open>createLoopAtPoint\<close> finds the anchor at index \<open>k\<close>, each of the 18
  points it emits lies at a forward offset along one direction from the anchor's position
  (and at a height above it), and that direction is \<open>spec_direction\<close>: \<open>(1, 0, 0)\<close> when
  \<open>k = 0\<close>; otherwise the normalised difference between the anchor's and the previous
  point's positions with its y-component set to zero, normalised again, except that it is
  \<open>(1, 0, 0)\<close> when the magnitude of the y-zeroed vector is below \<open>0.1\<close>.
\<close>

theorem createLoopAtPoint_direction:
  assumes "findIndex (\<lambda>p. pid p = ident) (trackPoints (useRollerCoaster m)) = int k"
  shows "map position
           (take 18 (drop (Suc k)
              (trackPoints (useRollerCoaster (createLoopAtPoint ident m))))) =
         map (spec_place (position (trackPoints (useRollerCoaster m) ! k))
                (spec_direction (trackPoints (useRollerCoaster m)) k)) spec_offsets"
proof -
  let ?tps = "trackPoints (useRollerCoaster m)"
  have ne: "findIndex (\<lambda>p. pid p = ident) ?tps \<noteq> - 1" using assms by simp
  from findIndex_found[OF ne] assms have k: "k < length ?tps" by simp
  have lt: "length (take (Suc k) ?tps) = Suc k" using k by simp
  have run: "take 18 (drop (Suc k) (take (Suc k) ?tps @ spec_loop c p d @ r)) = spec_loop c p d"
    for c p d r
    using lt by (simp add: length_spec_loop)
  have pos: "map position (spec_loop c p d) = map (spec_place p d) spec_offsets" for c p d
  proof -
    have "map position (spec_loop c p d) =
        map (\<lambda>nf. spec_place p d (snd nf)) (zip [1..<19] spec_offsets)"
      by (simp add: spec_loop_def case_prod_unfold)
    also have "\<dots> = map (spec_place p d) (map snd (zip [1..<19] spec_offsets))"
      by (simp add: o_def)
    also have "map snd (zip [1..<19] spec_offsets) = spec_offsets"
      by (rule map_snd_zip) (simp add: length_spec_offsets)
    finally show ?thesis .
  qed
  have tp: "trackPoints (useRollerCoaster (createLoopAtPoint ident m)) =
      take (Suc k) ?tps @
      spec_loop (pointCounter m) (position (?tps ! k)) (spec_direction ?tps k) @
      drop (Suc k) ?tps"
    by (simp add: createLoopAtPoint_found[OF assms])
  show ?thesis
    unfolding tp run pos ..
qed

theorem createLoopAtPoint_direction_witness:
  "findIndex (\<lambda>p. pid p = ''point-2'') (trackPoints (useRollerCoaster twoPoints)) = int 1 \<and>
   map position
     (take 18 (drop (Suc 1)
        (trackPoints (useRollerCoaster (createLoopAtPoint ''point-2'' twoPoints))))) =
   map (spec_place \<lparr>vx = 0, vy = 0, vz = 2\<rparr> \<lparr>vx = 0, vy = 0, vz = 1\<rparr>) spec_offsets \<and>
   position (trackPoints (useRollerCoaster (createLoopAtPoint ''point-2'' twoPoints)) ! 2) =
     \<lparr>vx = 0, vy = 2, vz = 5\<rparr>"
proof -
  have f: "findIndex (\<lambda>p. pid p = ''point-2'') (trackPoints (useRollerCoaster twoPoints)) = int 1"
    by (simp add: twoPoints_eq findIndex_def)
  have p: "position (trackPoints (useRollerCoaster twoPoints) ! 1) = \<lparr>vx = 0, vy = 0, vz = 2\<rparr>"
    by (simp add: twoPoints_eq)
  note w = createLoopAtPoint_direction[OF f, unfolded p twoPoints_direction]
  let ?tps' = "trackPoints (useRollerCoaster (createLoopAtPoint ''point-2'' twoPoints))"
  have len: "length ?tps' = 20"
    unfolding createLoopAtPoint_found[OF f] by (simp add: length_spec_loop twoPoints_eq)
  have "position (?tps' ! 2) = map position (take 18 (drop (Suc 1) ?tps')) ! 0"
    using len by (simp add: nth_map numeral_2_eq_2 del: drop_Suc)
  also have "\<dots> = \<lparr>vx = 0, vy = 2, vz = 5\<rparr>"
    unfolding w by (simp add: spec_offsets_def spec_place_def)
  finally show ?thesis using f w by blast
qed

subsection \<open>Removing a point\<close>

text \<open>
  Claim C7. In every state that a sequence of public operations reaches from the initial
  state, \<open>removeTrackPoint\<close> shortens the track by exactly one point when a point carries
  the id (the point at the index \<open>findIndex\<close> returns is cut out, the points before and
  after it stay as they are and in their order) and leaves the track as it is otherwise;
  \<open>selectedPointId\<close> becomes null when it equals the id and is unchanged otherwise; no
  other field changes.
\<close>

theorem removeTrackPoint_effect:
  assumes "s = useRollerCoaster (run ops initialModule)"
  shows "(if ident \<in> set (map pid (trackPoints s))
          then length (trackPoints (removeTrackPoint ident s)) + 1 = length (trackPoints s) \<and>
               trackPoints (removeTrackPoint ident s) =
                 take (nat (findIndex (\<lambda>p. pid p = ident) (trackPoints s))) (trackPoints s) @
                 drop (Suc (nat (findIndex (\<lambda>p. pid p = ident) (trackPoints s))))
                   (trackPoints s)
          else trackPoints (removeTrackPoint ident s) = trackPoints s) \<and>
         trackPoints (removeTrackPoint ident s) =
           filter (\<lambda>p. pid p \<noteq> ident) (trackPoints s) \<and>
         selectedPointId (removeTrackPoint ident s) =
           (if selectedPointId s = Some ident then None else selectedPointId s) \<and>
         mode (removeTrackPoint ident s) = mode s \<and>
         rideProgress (removeTrackPoint ident s) = rideProgress s \<and>
         isRiding (removeTrackPoint ident s) = isRiding s \<and>
         rideSpeed (removeTrackPoint ident s) = rideSpeed s \<and>
         isDraggingPoint (removeTrackPoint ident s) = isDraggingPoint s \<and>
         isAddingPoints (removeTrackPoint ident s) = isAddingPoints s \<and>
         isLooped (removeTrackPoint ident s) = isLooped s \<and>
         hasChainLift (removeTrackPoint ident s) = hasChainLift s \<and>
         showWoodSupports (removeTrackPoint ident s) = showWoodSupports s \<and>
         isNightMode (removeTrackPoint ident s) = isNightMode s \<and>
         cameraTarget (removeTrackPoint ident s) = cameraTarget s"
proof -
  let ?tps = "trackPoints s"
  let ?k = "nat (findIndex (\<lambda>p. pid p = ident) ?tps)"
  have d: "distinct (map pid ?tps)"
    using distinct_ids_run[of ops] assms by (simp add: trackIds_def)
  have tp: "trackPoints (removeTrackPoint ident s) = filter (\<lambda>p. pid p \<noteq> ident) ?tps"
    by (simp add: removeTrackPoint_def)
  have main: "if ident \<in> set (map pid ?tps)
          then length (trackPoints (removeTrackPoint ident s)) + 1 = length ?tps \<and>
               trackPoints (removeTrackPoint ident s) = take ?k ?tps @ drop (Suc ?k) ?tps
          else trackPoints (removeTrackPoint ident s) = ?tps"
  proof (cases "ident \<in> set (map pid ?tps)")
    case True
    from findIndex_member[OF True] have k: "?k < length ?tps" "pid (?tps ! ?k) = ident"
      by simp_all
    have "filter (\<lambda>p. pid p \<noteq> ident) ?tps = take ?k ?tps @ drop (Suc ?k) ?tps"
      using filter_distinct_key[OF d k(1)] k(2) by simp
    with True k(1) show ?thesis by (simp add: tp)
  next
    case False
    then have "filter (\<lambda>p. pid p \<noteq> ident) ?tps = ?tps"
      by (intro filter_True) auto
    with False show ?thesis by (simp add: tp)
  qed
  show ?thesis using main tp by (simp add: removeTrackPoint_def)
qed

theorem removeTrackPoint_effect_witness:
  "useRollerCoaster twoPointsSelected =
     useRollerCoaster (run [AddTrackPoint origin, AddTrackPoint \<lparr>vx = 0, vy = 0, vz = 2\<rparr>,
                             SelectPoint (Some ''point-1'')] initialModule) \<and>
   map pid (trackPoints (useRollerCoaster twoPointsSelected)) = [''point-1'', ''point-2''] \<and>
   selectedPointId (useRollerCoaster twoPointsSelected) = Some ''point-1'' \<and>
   map pid (trackPoints (removeTrackPoint ''point-1'' (useRollerCoaster twoPointsSelected))) =
     [''point-2''] \<and>
   selectedPointId (removeTrackPoint ''point-1'' (useRollerCoaster twoPointsSelected)) = None \<and>
   map pid (trackPoints (removeTrackPoint ''point-7'' (useRollerCoaster twoPointsSelected))) =
     [''point-1'', ''point-2''] \<and>
   selectedPointId (removeTrackPoint ''point-7'' (useRollerCoaster twoPointsSelected)) =
     Some ''point-1''"
proof -
  let ?s = "useRollerCoaster twoPointsSelected"
  have a: "?s = useRollerCoaster (run [AddTrackPoint origin,
      AddTrackPoint \<lparr>vx = 0, vy = 0, vz = 2\<rparr>, SelectPoint (Some ''point-1'')] initialModule)"
    by (simp add: twoPointsSelected_def)
  have tps: "trackPoints ?s =
      [\<lparr>pid = ''point-1'', position = origin, tilt = 0\<rparr>,
       \<lparr>pid = ''point-2'', position = \<lparr>vx = 0, vy = 0, vz = 2\<rparr>, tilt = 0\<rparr>]"
    and sel: "selectedPointId ?s = Some ''point-1''"
    by (simp_all add: twoPointsSelected_def run_def onStore_def addTrackPoint_def
        selectPoint_def Let_def initialModule_def initialState_def pointId_def decimal.simps
        digitChar_def clone_vec_def origin_def)
  have f: "findIndex (\<lambda>p. pid p = ''point-1'') (trackPoints ?s) = 0"
    unfolding tps by (simp add: findIndex_def)
  from removeTrackPoint_effect[OF a, of "''point-1''"]
    removeTrackPoint_effect[OF a, of "''point-7''"] a
  show ?thesis
    unfolding f unfolding tps sel by simp
qed

subsection \<open>Moving a point\<close>

text \<open>
  Claim C8. \<open>updateTrackPoint\<close> keeps the length of the track; every point with the
  given id gets the position \<open>p\<close> and keeps its id and tilt, every other point is
  unchanged; for an id that no point carries the whole state is unchanged. With positions
  as objects: the track read through the references is the one the value-level function
  gives; no vector that existed before the call is written; the position of an updated
  point is a vector allocated by the call (its address lies beyond the old heap, so it is
  not the caller's object \<open>r\<close>), it holds the caller's coordinates, and it still does after
  the caller's object is overwritten with any \<open>v\<close>.
\<close>

theorem updateTrackPoint_effect:
  "length (trackPoints (updateTrackPoint ident p s)) = length (trackPoints s) \<and>
   (\<forall>j < length (trackPoints s).
      if pid (trackPoints s ! j) = ident
      then trackPoints (updateTrackPoint ident p s) ! j =
             \<lparr>pid = ident, position = p, tilt = tilt (trackPoints s ! j)\<rparr>
      else trackPoints (updateTrackPoint ident p s) ! j = trackPoints s ! j) \<and>
   (ident \<notin> set (map pid (trackPoints s)) \<longrightarrow> updateTrackPoint ident p s = s) \<and>
   (r < length heap \<and> list_all (\<lambda>point. rposition point < length heap) points \<longrightarrow>
      (let (points', heap') = updateTrackPoint_ref ident r points heap
       in deref heap' points' =
            trackPoints (updateTrackPoint ident (heap ! r) (s\<lparr>trackPoints := deref heap points\<rparr>)) \<and>
          take (length heap) heap' = heap \<and>
          (\<forall>j < length points. rid (points ! j) = ident \<longrightarrow>
             length heap \<le> rposition (points' ! j) \<and>
             position (deref (heap'[r := v]) points' ! j) = heap ! r)))"
proof -
  have a: "ident \<notin> set (map pid (trackPoints s)) \<longrightarrow> updateTrackPoint ident p s = s"
    using updateTrackPoint_missing by blast
  have b: "r < length heap \<and> list_all (\<lambda>point. rposition point < length heap) points \<longrightarrow>
      (let (points', heap') = updateTrackPoint_ref ident r points heap
       in deref heap' points' =
            trackPoints (updateTrackPoint ident (heap ! r) (s\<lparr>trackPoints := deref heap points\<rparr>)) \<and>
          take (length heap) heap' = heap \<and>
          (\<forall>j < length points. rid (points ! j) = ident \<longrightarrow>
             length heap \<le> rposition (points' ! j) \<and>
             position (deref (heap'[r := v]) points' ! j) = heap ! r))"
  proof
    assume h: "r < length heap \<and> list_all (\<lambda>point. rposition point < length heap) points"
    then have r: "r < length heap" and valid: "list_all (\<lambda>point. rposition point < length heap) points"
      by simp_all
    have 1: "deref (snd (updateTrackPoint_ref ident r points heap))
               (fst (updateTrackPoint_ref ident r points heap)) =
             trackPoints (updateTrackPoint ident (heap ! r) (s\<lparr>trackPoints := deref heap points\<rparr>))"
      using deref_updateTrackPoint_ref[OF r valid, of ident] by (simp add: updateTrackPoint_def)
    have 3: "\<forall>j < length points. rid (points ! j) = ident \<longrightarrow>
        length heap \<le> rposition (fst (updateTrackPoint_ref ident r points heap) ! j) \<and>
        position (deref ((snd (updateTrackPoint_ref ident r points heap))[r := v])
          (fst (updateTrackPoint_ref ident r points heap)) ! j) = heap ! r"
      using updateTrackPoint_ref_match[OF _ _ r] updateTrackPoint_ref_copy[OF r] by blast
    show "let (points', heap') = updateTrackPoint_ref ident r points heap
       in deref heap' points' =
            trackPoints (updateTrackPoint ident (heap ! r) (s\<lparr>trackPoints := deref heap points\<rparr>)) \<and>
          take (length heap) heap' = heap \<and>
          (\<forall>j < length points. rid (points ! j) = ident \<longrightarrow>
             length heap \<le> rposition (points' ! j) \<and>
             position (deref (heap'[r := v]) points' ! j) = heap ! r)"
      unfolding Let_def case_prod_unfold using 1 3 updateTrackPoint_ref_take by blast
  qed
  from updateTrackPoint_value[of ident p s] a b show ?thesis by blast
qed

theorem updateTrackPoint_effect_witness:
  "2 < length exampleHeap \<and>
   list_all (\<lambda>point. rposition point < length exampleHeap) examplePoints \<and>
   trackPoints (updateTrackPoint ''point-2'' \<lparr>vx = 5, vy = 1, vz = 5\<rparr> (useRollerCoaster twoPoints)) =
     [\<lparr>pid = ''point-1'', position = origin, tilt = 0\<rparr>,
      \<lparr>pid = ''point-2'', position = \<lparr>vx = 5, vy = 1, vz = 5\<rparr>, tilt = 0\<rparr>] \<and>
   deref (exampleHeap @ [\<lparr>vx = 5, vy = 1, vz = 5\<rparr>])
     [\<lparr>rid = ''point-1'', rposition = 0, rtilt = 0\<rparr>,
      \<lparr>rid = ''point-2'', rposition = 3, rtilt = 0\<rparr>] =
     trackPoints (updateTrackPoint ''point-2'' \<lparr>vx = 5, vy = 1, vz = 5\<rparr> (useRollerCoaster twoPoints)) \<and>
   position (deref ((exampleHeap @ [\<lparr>vx = 5, vy = 1, vz = 5\<rparr>])[2 := origin])
     [\<lparr>rid = ''point-1'', rposition = 0, rtilt = 0\<rparr>,
      \<lparr>rid = ''point-2'', rposition = 3, rtilt = 0\<rparr>] ! 1) = \<lparr>vx = 5, vy = 1, vz = 5\<rparr> \<and>
   ''point-7'' \<notin> set (map pid (trackPoints (useRollerCoaster twoPoints))) \<and>
   updateTrackPoint ''point-7'' origin (useRollerCoaster twoPoints) = useRollerCoaster twoPoints"
proof -
  have h: "2 < length exampleHeap" "list_all (\<lambda>point. rposition point < length exampleHeap) examplePoints"
    by (simp_all add: exampleHeap_def examplePoints_def)
  have v: "exampleHeap ! 2 = \<lparr>vx = 5, vy = 1, vz = 5\<rparr>" by (simp add: exampleHeap_def)
  have s: "(useRollerCoaster twoPoints)\<lparr>trackPoints := deref exampleHeap examplePoints\<rparr> = useRollerCoaster twoPoints"
    by (simp add: example_deref)
  have n: "''point-7'' \<notin> set (map pid (trackPoints (useRollerCoaster twoPoints)))"
    by (simp add: twoPoints_eq)
  have t: "trackPoints (updateTrackPoint ''point-2'' \<lparr>vx = 5, vy = 1, vz = 5\<rparr> (useRollerCoaster twoPoints)) =
     [\<lparr>pid = ''point-1'', position = origin, tilt = 0\<rparr>,
      \<lparr>pid = ''point-2'', position = \<lparr>vx = 5, vy = 1, vz = 5\<rparr>, tilt = 0\<rparr>]"
    by (simp add: updateTrackPoint_def twoPoints_eq clone_vec_def)
  from updateTrackPoint_effect[of "''point-2''" "\<lparr>vx = 5, vy = 1, vz = 5\<rparr>" "useRollerCoaster twoPoints"
      2 exampleHeap examplePoints origin]
    updateTrackPoint_effect[of "''point-7''" origin "useRollerCoaster twoPoints" 2 exampleHeap examplePoints origin]
    h n t
  show ?thesis
    unfolding example_update v s by (simp add: examplePoints_def)
qed

subsection \<open>What a loop leaves alone\<close>

text \<open>
  Claim C10. For the id of an existing point, with \<open>k\<close> the index of the first point that
  carries it, \<open>createLoopAtPoint\<close> changes only \<open>trackPoints\<close>: the new track is 18
  points longer, its first \<open>k + 1\<close> points are the old first \<open>k + 1\<close> points, and what
  follows the 18 inserted points is what followed the anchor before; \<open>mode\<close>,
  \<open>selectedPointId\<close>, \<open>rideProgress\<close>, \<open>isRiding\<close>, \<open>rideSpeed\<close>, the six toggles and
  \<open>cameraTarget\<close> keep their values.
\<close>

theorem createLoopAtPoint_frame:
  assumes "ident \<in> set (trackIds m)"
  shows "let s = useRollerCoaster m;
             s' = useRollerCoaster (createLoopAtPoint ident m);
             k = nat (findIndex (\<lambda>p. pid p = ident) (trackPoints s))
         in k < length (trackPoints s) \<and> pid (trackPoints s ! k) = ident \<and>
            length (trackPoints s') = length (trackPoints s) + 18 \<and>
            take (Suc k) (trackPoints s') = take (Suc k) (trackPoints s) \<and>
            drop (Suc k + 18) (trackPoints s') = drop (Suc k) (trackPoints s) \<and>
            mode s' = mode s \<and> selectedPointId s' = selectedPointId s \<and>
            rideProgress s' = rideProgress s \<and> isRiding s' = isRiding s \<and>
            rideSpeed s' = rideSpeed s \<and> isDraggingPoint s' = isDraggingPoint s \<and>
            isAddingPoints s' = isAddingPoints s \<and> isLooped s' = isLooped s \<and>
            hasChainLift s' = hasChainLift s \<and> showWoodSupports s' = showWoodSupports s \<and>
            isNightMode s' = isNightMode s \<and> cameraTarget s' = cameraTarget s"
proof -
  let ?tps = "trackPoints (useRollerCoaster m)"
  let ?k = "nat (findIndex (\<lambda>p. pid p = ident) ?tps)"
  from assms have mem: "ident \<in> set (map pid ?tps)" by (simp add: trackIds_def)
  note k = findIndex_member[OF mem]
  note eq = createLoopAtPoint_found[OF k(1)]
  have len: "Suc ?k \<le> length ?tps" using k(2) by simp
  have lt: "length (take (Suc ?k) ?tps) = Suc ?k" using len by simp
  have t: "take (Suc ?k) (take (Suc ?k) ?tps @ r) = take (Suc ?k) ?tps" for r
    using lt by simp
  have d: "drop (Suc ?k + 18) (take (Suc ?k) ?tps @ spec_loop c p dir @ drop (Suc ?k) ?tps)
      = drop (Suc ?k) ?tps" for c p dir
    using lt by (simp add: length_spec_loop)
  show ?thesis
    unfolding Let_def eq using k(2,3) len
    by (simp add: length_spec_loop t d del: take_Suc drop_Suc)
qed

theorem createLoopAtPoint_frame_witness:
  "''point-1'' \<in> set (trackIds twoPointsSelected) \<and>
   nat (findIndex (\<lambda>p. pid p = ''point-1'') (trackPoints (useRollerCoaster twoPointsSelected)))
     = 0 \<and>
   length (trackPoints (useRollerCoaster (createLoopAtPoint ''point-1'' twoPointsSelected)))
     = 20 \<and>
   take 1 (trackPoints (useRollerCoaster (createLoopAtPoint ''point-1'' twoPointsSelected))) =
     [\<lparr>pid = ''point-1'', position = origin, tilt = 0\<rparr>] \<and>
   drop 19 (trackPoints (useRollerCoaster (createLoopAtPoint ''point-1'' twoPointsSelected))) =
     [\<lparr>pid = ''point-2'', position = \<lparr>vx = 0, vy = 0, vz = 2\<rparr>, tilt = 0\<rparr>] \<and>
   selectedPointId (useRollerCoaster (createLoopAtPoint ''point-1'' twoPointsSelected)) =
     Some ''point-1'' \<and>
   mode (useRollerCoaster (createLoopAtPoint ''point-1'' twoPointsSelected)) = Build"
proof -
  have st: "useRollerCoaster twoPointsSelected =
      initialState\<lparr>trackPoints :=
        [\<lparr>pid = ''point-1'', position = origin, tilt = 0\<rparr>,
         \<lparr>pid = ''point-2'', position = \<lparr>vx = 0, vy = 0, vz = 2\<rparr>, tilt = 0\<rparr>],
        selectedPointId := Some ''point-1''\<rparr>"
    by (simp add: twoPointsSelected_def run_def onStore_def addTrackPoint_def
        selectPoint_def Let_def initialModule_def initialState_def pointId_def decimal.simps
        digitChar_def clone_vec_def origin_def)
  have a: "''point-1'' \<in> set (trackIds twoPointsSelected)"
    by (simp add: trackIds_def st)
  have f: "findIndex (\<lambda>p. pid p = ''point-1'') (trackPoints (useRollerCoaster twoPointsSelected))
      = 0"
    by (simp add: st findIndex_def)
  from createLoopAtPoint_frame[OF a] a show ?thesis
    unfolding Let_def f by (simp add: st initialState_def)
qed

end
